theory Spec2Isabelle
  imports Main "HOL-Library.Sublist"
begin

section \<open>JavaScript strings\<close>

text \<open>
  Strings are sequences of 8-bit code units read as Latin-1 code points (the range of
  \<^typ>\<open>char\<close>).  On that range the white space of \<open>String.prototype.trim\<close> and of
  the regular-expression class \<open>\s\<close> is the same set: TAB, LF, VT, FF, CR, SPACE and
  NO-BREAK SPACE.  \<open>toLowerCase\<close> maps \<open>A..Z\<close> and the upper-case letters
  \<open>U+00C0..U+00DE\<close> (without the multiplication sign \<open>U+00D7\<close>) to the code point 32
  above and leaves every other code unit alone.
\<close>

definition isWhiteSpace :: "char \<Rightarrow> bool" where
  "isWhiteSpace c = (of_char c \<in> {9, 10, 11, 12, 13, 32, 160 :: nat})"

definition toLowerCaseChar :: "char \<Rightarrow> char" where
  "toLowerCaseChar c =
     (let n = (of_char c :: nat)
      in if (65 \<le> n \<and> n \<le> 90) \<or> (192 \<le> n \<and> n \<le> 214) \<or> (216 \<le> n \<and> n \<le> 222)
         then char_of (n + 32) else c)"

definition toLowerCase :: "string \<Rightarrow> string" where
  "toLowerCase s = map toLowerCaseChar s"

definition trim :: "string \<Rightarrow> string" where
  "trim s = rev (dropWhile isWhiteSpace (rev (dropWhile isWhiteSpace s)))"

text \<open>
  \<open>s.replace(/\s+/g, ' ')\<close>: scanning from the left, every maximal run of white space
  is replaced by one space.
\<close>

function replaceWhitespaceRuns :: "string \<Rightarrow> string" where
  "replaceWhitespaceRuns [] = []"
| "replaceWhitespaceRuns (c # cs) =
     (if isWhiteSpace c then CHR '' '' # replaceWhitespaceRuns (dropWhile isWhiteSpace cs)
      else c # replaceWhitespaceRuns cs)"
  by pat_completeness auto
termination
  by (relation "measure length") (auto simp: less_Suc_eq_le length_dropWhile_le)

text \<open>\<open>haystack.includes(needle)\<close>: the needle occurs as a contiguous substring.\<close>

fun includes_str :: "string \<Rightarrow> string \<Rightarrow> bool" where
  "includes_str [] searchString = (searchString = [])"
| "includes_str (c # cs) searchString =
     (prefix searchString (c # cs) \<or> includes_str cs searchString)"

text \<open>\<open>a || b\<close> on strings: the empty string is falsy.\<close>

definition or_else :: "string \<Rightarrow> string \<Rightarrow> string" where
  "or_else a b = (if a = [] then b else a)"

text \<open>\<open>s || null\<close>.\<close>

definition or_null :: "string \<Rightarrow> string option" where
  "or_null s = (if s = [] then None else Some s)"

text \<open>Decimal rendering of a number inside a template literal.\<close>

function natToString :: "nat \<Rightarrow> string" where
  "natToString n =
     (if n < 10 then [char_of (48 + n)]
      else natToString (n div 10) @ [char_of (48 + n mod 10)])"
  by pat_completeness auto
termination
  by (relation "measure id") auto

section \<open>DOM capability model\<close>

text \<open>
  The scraper only ever reads a handful of properties of a DOM node and queries it with
  CSS selectors.  A node is modelled by exactly those capabilities.  A query either
  throws (\<open>Inl\<close> carries the exception message, as for a malformed selector) or
  returns its matches (\<open>Inr\<close>).  The document is a node as well: it is the default
  \<open>context\<close> of the resolution primitives.  \<open>contentDocument\<close> is the body of a
  frame's document: reading it may throw (cross-origin), may be absent, or gives a body.
  \<open>className\<close> is a string for an HTML element; for an SVG element it is an object
  without string methods (\<open>None\<close>), and calling \<open>toLowerCase\<close> on it throws a
  \<open>TypeError\<close>.
\<close>

datatype element = Element
  (tagName: string)
  (className: "string option")
  (textContent: string)
  (innerText: string)
  (innerHTML: string)
  (outerHTML: string)
  (querySelector: "string \<Rightarrow> string + element option")
  (querySelectorAll: "string \<Rightarrow> string + element list")
  (contentDocument: "string + element option")

text \<open>
  \<open>findElement\<close> and \<open>findElements\<close> accept either an array of selectors or a
  single selector, which they wrap into a one-element array (\<open>Array.isArray\<close>).
\<close>

datatype selector_input = One string | Arr "string list"

fun toSelectorArray :: "selector_input \<Rightarrow> string list" where
  "toSelectorArray (One s) = [s]"
| "toSelectorArray (Arr ss) = ss"

section \<open>Selector resolution (selectors.js)\<close>

fun findElement_loop :: "string list \<Rightarrow> element \<Rightarrow> element option" where
  "findElement_loop [] context = None"
| "findElement_loop (selector # rest) context =
     (case querySelector context selector of
        Inl error \<Rightarrow> findElement_loop rest context
      | Inr None \<Rightarrow> findElement_loop rest context
      | Inr (Some el) \<Rightarrow> Some el)"

definition findElement :: "selector_input \<Rightarrow> element \<Rightarrow> element option" where
  "findElement selectorArray context = findElement_loop (toSelectorArray selectorArray) context"

fun findElements_loop :: "string list \<Rightarrow> element \<Rightarrow> element list" where
  "findElements_loop [] context = []"
| "findElements_loop (selector # rest) context =
     (case querySelectorAll context selector of
        Inl error \<Rightarrow> findElements_loop rest context
      | Inr elements \<Rightarrow>
          (if length elements > 0 then elements else findElements_loop rest context))"

definition findElements :: "selector_input \<Rightarrow> element \<Rightarrow> element list" where
  "findElements selectorArray context = findElements_loop (toSelectorArray selectorArray) context"

section \<open>The selector registry (selectors.js)\<close>

definition SELECTORS_chapterContainer :: "string list" where
  \<open>SELECTORS_chapterContainer =
     [''.chapter-card_FVZUV'',
      ''[class*="chapter-card"]'',
      ''.accordion.course-tree-chapters_m1XqK'',
      ''[class*="accordion"].course-tree-chapters'',
      ''[class*="accordion__header"]'',
      ''[class*="accordion"][role="button"]'',
      ''div[role="button"]:has([data-qa="accordion-title"])'',
      ''[data-qa="chapter-container"]'',
      ''[data-testid="chapter-card"]'',
      ''[class*="chapter"]'',
      ''.course-tree__chapters > div'',
      ''div[role="region"]'',
      ''.curriculum-section'']\<close>

definition SELECTORS_chapterTitle :: "string list" where
  \<open>SELECTORS_chapterTitle =
     [''[data-qa="accordion-title"]'',
      ''[data-qa="chapter-title"]'',
      ''[class*="accordion-title"]'',
      ''[class*="chapter-title"]'',
      ''span[aria-expanded]'',
      ''.chapter-header'',
      ''h2, h3, h4'']\<close>

definition SELECTORS_lessonCard :: "string list" where
  \<open>SELECTORS_lessonCard =
     [''.content-card_kNCsI'',
      ''[data-qa="curriculum-lesson-card"]'',
      ''[data-qa="lesson-card"]'',
      ''[data-testid="lesson-card"]'',
      ''[class*="content-card"]'',
      ''[class*="lesson-card"]'',
      ''[class*="curriculum-item"]'',
      ''div[role="button"]'',
      ''.lesson-item'']\<close>

definition SELECTORS_clickableLesson :: "string list" where
  \<open>SELECTORS_clickableLesson =
     [''[data-qa="curriculum-lesson-card"]'',
      ''[data-testid="lesson-card"]'',
      ''button[role="button"]'',
      ''div[role="button"]'',
      ''a[href]'',
      ''[class*="content-card"]'',
      ''[class*="lesson-card"]'']\<close>

definition SELECTORS_lessonTitle :: "string list" where
  \<open>SELECTORS_lessonTitle =
     [''.content-card__name_GVtnt'',
      ''[class*="content-card__name"]'',
      ''[data-qa="lesson-title"]'',
      ''[class*="lesson__name"]'',
      ''[class*="lesson-title"]'',
      ''.lesson-name'',
      ''span, p'']\<close>

definition SELECTORS_lessonIcon :: "string list" where
  \<open>SELECTORS_lessonIcon =
     [''[data-qa="lesson-icon"]'',
      ''[class*="icon"]'',
      ''svg'',
      ''i[class*="fa-"]'']\<close>

definition SELECTORS_lessonTextEditor :: "string list" where
  \<open>SELECTORS_lessonTextEditor =
     [''.fr-element.fr-view'',
      ''[class*="fr-view"]'',
      ''[class*="fr-element"]'',
      ''.tox-edit-area__iframe'',
      ''iframe[id*="tiny"]'',
      ''[data-qa="lesson-text-editor"]'',
      ''[data-qa="lesson-text"]'',
      ''[data-qa="text-editor"]'',
      ''[contenteditable="true"]'',
      ''[class*="editor-content"]'',
      ''[class*="lesson-text"]'',
      ''.text-editor'',
      ''.lesson-editor'']\<close>

section \<open>Content-type detection (selectors.js)\<close>

text \<open>
  The message of the \<open>TypeError\<close> raised by \<open>iconElement.className.toLowerCase()\<close>
  when \<open>className\<close> is not a string.
\<close>

definition classNameTypeError :: string where
  "classNameTypeError = ''iconElement.className.toLowerCase is not a function''"

text \<open>
  \<open>detectLessonType\<close>: \<open>Inl\<close> is the exception, \<open>Inr\<close> the type.  Both
  \<open>iconHTML\<close> and \<open>iconClasses\<close> are computed before any keyword is looked for.
\<close>

definition detectLessonType :: "element \<Rightarrow> string + string" where
  \<open>detectLessonType lessonElement =
     (case findElement (Arr SELECTORS_lessonIcon) lessonElement of
        None \<Rightarrow> Inr ''unknown''
      | Some iconElement \<Rightarrow>
          (case className iconElement of
             None \<Rightarrow> Inl classNameTypeError
           | Some iconClassName \<Rightarrow>
          (let iconHTML = toLowerCase (outerHTML iconElement);
               iconClasses = toLowerCase iconClassName
           in if includes_str iconHTML ''video'' \<or> includes_str iconHTML ''play'' \<or>
                 includes_str iconClasses ''video'' \<or> includes_str iconClasses ''play''
              then Inr ''video''
              else if includes_str iconHTML ''text'' \<or> includes_str iconHTML ''document'' \<or>
                 includes_str iconHTML ''file-text'' \<or>
                 includes_str iconClasses ''text'' \<or> includes_str iconClasses ''document''
              then Inr ''text''
              else if includes_str iconHTML ''quiz'' \<or> includes_str iconHTML ''question'' \<or>
                 includes_str iconHTML ''test'' \<or>
                 includes_str iconClasses ''quiz'' \<or> includes_str iconClasses ''question''
              then Inr ''quiz''
              else if includes_str iconHTML ''download'' \<or> includes_str iconHTML ''arrow-down'' \<or>
                 includes_str iconClasses ''download''
              then Inr ''download''
              else (let lessonHTML = toLowerCase (outerHTML lessonElement)
                    in if includes_str lessonHTML ''type="video"'' \<or>
                          includes_str lessonHTML ''data-type="video"''
                       then Inr ''video''
                       else if includes_str lessonHTML ''type="text"'' \<or>
                          includes_str lessonHTML ''data-type="text"''
                       then Inr ''text''
                       else Inr ''unknown''))))\<close>

section \<open>The click-through scraper (popup.js, \<open>clickThroughAndScrapeCourse\<close>)\<close>

subsection \<open>Helpers\<close>

text \<open>
  \<open>normalizeText\<close>, the normalisation of the locate step: a falsy argument gives the
  empty string, otherwise trim, collapse white-space runs, lower-case.
\<close>

definition normalizeText :: "string \<Rightarrow> string" where
  "normalizeText text =
     (if text = [] then [] else toLowerCase (replaceWhitespaceRuns (trim text)))"

text \<open>
  The normalisation local to \<open>waitForLessonLoaded\<close> (there named \<open>normalize\<close>):
  \<open>(s || '').trim().replace(/\s+/g, ' ')\<close>, with no case folding.
\<close>

definition normalize_loaded :: "string \<Rightarrow> string" where
  "normalize_loaded s = replaceWhitespaceRuns (trim (or_else s []))"

definition editorTitleSelectors :: "string list" where
  \<open>editorTitleSelectors =
     [''[data-qa="lesson-title"]'',
      ''[data-qa*="lesson-title"]'',
      ''.lesson-title'',
      ''.content-form-header h1'',
      ''.content-form h1'',
      ''h1'']\<close>

text \<open>The inner \<open>for\<close> loop of \<open>waitForLessonLoaded\<close> that picks \<open>titleEl\<close>.\<close>

fun titleEl_loop :: "string list \<Rightarrow> element \<Rightarrow> element option" where
  "titleEl_loop [] document = None"
| "titleEl_loop (sel # rest) document =
     (case querySelector document sel of
        Inl e \<Rightarrow> titleEl_loop rest document
      | Inr None \<Rightarrow> titleEl_loop rest document
      | Inr (Some candidate) \<Rightarrow> Some candidate)"

text \<open>One poll: is there a title element whose normalised text is the expected one?\<close>

definition titleMatches :: "string \<Rightarrow> element \<Rightarrow> bool" where
  "titleMatches normalizedExpected document =
     (case titleEl_loop editorTitleSelectors document of
        None \<Rightarrow> False
      | Some titleEl \<Rightarrow> normalize_loaded (textContent titleEl) = normalizedExpected)"

text \<open>
  \<open>waitForLessonLoaded\<close>.  The guard of the loop reads the clock:
  \<open>Date.now() - start < timeoutMs\<close>.  Between two evaluations of the guard lies one
  \<open>await sleep(500)\<close>, which lasts 500 ms at least; whatever more passes before the
  \<open>i\<close>-th evaluation (the query, the logging, a late timer) is \<open>delay i\<close>, given by
  the environment, as is the page \<open>document i\<close> that the \<open>i\<close>-th poll sees.  The
  argument \<open>elapsed\<close> is the time since \<open>start\<close> at the end of the last sleep.
\<close>

function waitForLessonLoaded_loop ::
    "string \<Rightarrow> nat \<Rightarrow> (nat \<Rightarrow> nat) \<Rightarrow> (nat \<Rightarrow> element) \<Rightarrow> nat \<Rightarrow> nat \<Rightarrow> bool" where
  "waitForLessonLoaded_loop normalizedExpected timeoutMs delay document i elapsed =
     (if elapsed + delay i < timeoutMs
      then (if titleMatches normalizedExpected (document i) then True
            else waitForLessonLoaded_loop normalizedExpected timeoutMs delay document
                   (Suc i) (elapsed + delay i + 500))
      else False)"
  by pat_completeness auto
termination
  by (relation "measure (\<lambda>(e, timeoutMs, dl, d, i, elapsed). timeoutMs - elapsed)") auto

definition waitForLessonLoaded ::
    "string \<Rightarrow> nat \<Rightarrow> (nat \<Rightarrow> nat) \<Rightarrow> (nat \<Rightarrow> element) \<Rightarrow> bool" where
  "waitForLessonLoaded expectedTitle timeoutMs delay document =
     waitForLessonLoaded_loop (normalize_loaded expectedTitle) timeoutMs delay document 0 0"

text \<open>
  \<open>extractLessonText\<close>: the pair \<open>(html, plainText)\<close>, or \<open>null\<close>.  A frame whose
  document cannot be read (the access throws, or there is no document or body) gives
  \<open>null\<close>.
\<close>

definition extractLessonText :: "element \<Rightarrow> (string \<times> string) option" where
  "extractLessonText document =
     (case findElement (Arr SELECTORS_lessonTextEditor) document of
        None \<Rightarrow> None
      | Some editorEl \<Rightarrow>
          (if tagName editorEl = ''IFRAME''
           then (case contentDocument editorEl of
                   Inl err \<Rightarrow> None
                 | Inr None \<Rightarrow> None
                 | Inr (Some body) \<Rightarrow>
                     Some (innerHTML body, or_else (innerText body) (or_else (textContent body) [])))
           else Some (innerHTML editorEl,
                      or_else (innerText editorEl) (or_else (textContent editorEl) []))))"

subsection \<open>Plan and result data\<close>

record lesson =
  chapterIndex :: nat
  lessonIndex :: nat
  title :: string
  ltype :: string
  content :: "string option"
  lessonTextContent :: "string option"
  plainTextContent :: "string option"
  error :: "string option"

record chapter_plan =
  chapterTitle :: string
  chapterIndexC :: nat
  lessons :: "lesson list"

datatype message =
    TcsInit nat
  | TcsProgress nat nat string
  | TcsCancelled nat nat
  | TcsDone nat nat

record result_document =
  cancelled :: bool
  courseTitle :: string
  curriculumUrl :: string
  extractedAt :: string
  totalChapters :: nat
  totalLessons :: nat
  chapters :: "chapter_plan list"

subsection \<open>Building the plan\<close>

definition titleOr :: "element option \<Rightarrow> string \<Rightarrow> string" where
  "titleOr titleEl fallback =
     (case titleEl of None \<Rightarrow> fallback | Some el \<Rightarrow> or_else (trim (textContent el)) fallback)"

text \<open>
  The two nested \<open>for\<close> loops that build the plan.  They are not inside a per-lesson
  \<open>try\<close>: an exception of \<open>detectLessonType\<close> (\<open>Inl\<close>) leaves them and reaches the
  \<open>catch\<close> of the whole function.
\<close>

fun buildLessons :: "nat \<Rightarrow> nat \<Rightarrow> element list \<Rightarrow> string + lesson list" where
  "buildLessons chapterIdx lessonIdx [] = Inr []"
| "buildLessons chapterIdx lessonIdx (lessonCard # rest) =
     (case detectLessonType lessonCard of
        Inl e \<Rightarrow> Inl e
      | Inr lessonType \<Rightarrow>
          (case buildLessons chapterIdx (lessonIdx + 1) rest of
             Inl e \<Rightarrow> Inl e
           | Inr ls \<Rightarrow>
               Inr (\<lparr> chapterIndex = chapterIdx,
                      lessonIndex = lessonIdx,
                      title = titleOr (findElement (Arr SELECTORS_lessonTitle) lessonCard)
                                (''Lesson '' @ natToString (lessonIdx + 1)),
                      ltype = lessonType,
                      content = None,
                      lessonTextContent = None,
                      plainTextContent = None,
                      error = None \<rparr> # ls)))"

fun buildChapters :: "nat \<Rightarrow> element list \<Rightarrow> string + chapter_plan list" where
  "buildChapters chapterIdx [] = Inr []"
| "buildChapters chapterIdx (chapterElement # rest) =
     (case buildLessons chapterIdx 0 (findElements (Arr SELECTORS_lessonCard) chapterElement) of
        Inl e \<Rightarrow> Inl e
      | Inr ls \<Rightarrow>
          (case buildChapters (chapterIdx + 1) rest of
             Inl e \<Rightarrow> Inl e
           | Inr cs \<Rightarrow>
               Inr (\<lparr> chapterTitle =
                        titleOr (findElement (Arr SELECTORS_chapterTitle) chapterElement)
                          (''Chapter '' @ natToString (chapterIdx + 1)),
                      chapterIndexC = chapterIdx,
                      lessons = ls \<rparr> # cs)))"

definition countLessons :: "chapter_plan list \<Rightarrow> nat" where
  "countLessons chs = sum_list (map (\<lambda>c. length (lessons c)) chs)"

subsection \<open>The interaction loop\<close>

text \<open>
  What the page shows while one lesson is being processed: the value of the
  cancellation flag \<open>window.__TCS_CANCELLED\<close> when the iteration starts, the document at
  the locate step, an exception raised while scrolling to and clicking the target (if
  any), the delays and the documents of the successive polls, and the document at
  extraction.
\<close>

record lesson_env =
  cancelFlag :: bool
  locateDocument :: element
  interactionError :: "string option"
  pollDelay :: "nat \<Rightarrow> nat"
  pollDocument :: "nat \<Rightarrow> element"
  extractDocument :: element

record loop_state =
  completed :: nat
  processedLessons :: nat
  cancelledVar :: bool
  messages :: "message list"

text \<open>The search for \<open>targetLessonCard\<close>: the first card whose normalised title matches.\<close>

fun findTargetCard :: "string \<Rightarrow> element list \<Rightarrow> element option" where
  "findTargetCard normalizedTarget [] = None"
| "findTargetCard normalizedTarget (cardEl # rest) =
     (case findElement (Arr SELECTORS_lessonTitle) cardEl of
        None \<Rightarrow> findTargetCard normalizedTarget rest
      | Some titleElement \<Rightarrow>
          (if normalizeText (textContent titleElement) = normalizedTarget then Some cardEl
           else findTargetCard normalizedTarget rest))"

definition failLesson :: "lesson \<Rightarrow> string \<Rightarrow> lesson" where
  "failLesson l msg =
     l\<lparr> content := None, lessonTextContent := None, plainTextContent := None,
        error := Some msg \<rparr>"

text \<open>
  The body of the \<open>try\<close> block after the cancellation check.  \<open>Inl\<close> is an exception
  that reaches the \<open>catch (lessonError)\<close> clause; the two \<open>continue\<close> statements leave
  the iteration before the progress message.
\<close>

definition lessonBody ::
    "lesson_env \<Rightarrow> nat \<Rightarrow> lesson \<Rightarrow> loop_state \<Rightarrow> string + (lesson \<times> loop_state)" where
  \<open>lessonBody env totalN l st =
     (let lessonCards = findElements (Arr SELECTORS_lessonCard) (locateDocument env);
          normalizedTarget = normalizeText (title l)
      in case findTargetCard normalizedTarget lessonCards of
           None \<Rightarrow> Inr (failLesson l ''Could not find lesson card in DOM'', st)
         | Some targetLessonCard \<Rightarrow>
             (case (case findElement (Arr SELECTORS_clickableLesson) targetLessonCard of
                      Some el \<Rightarrow> Inr el
                    | None \<Rightarrow>
                        (case querySelector targetLessonCard ''button, [role="button"]'' of
                           Inl e \<Rightarrow> Inl e
                         | Inr (Some el) \<Rightarrow> Inr el
                         | Inr None \<Rightarrow> Inr targetLessonCard)) of
                Inl e \<Rightarrow> Inl e
              | Inr clickableElement \<Rightarrow>
                  (case interactionError env of
                     Some e \<Rightarrow> Inl e
                   | None \<Rightarrow>
                       if \<not> waitForLessonLoaded (title l) 12000 (pollDelay env) (pollDocument env)
                       then Inr (failLesson l ''Lesson did not load in editor panel (timeout)'', st)
                       else
                         (let l' =
                                (case extractLessonText (extractDocument env) of
                                   Some (html, plainText) \<Rightarrow>
                                     l\<lparr> content := or_null html,
                                        lessonTextContent := or_null plainText,
                                        plainTextContent := or_null plainText \<rparr>
                                 | None \<Rightarrow>
                                     failLesson l ''Could not extract text from editor'');
                              st' = st\<lparr> completed := completed st + 1 \<rparr>
                          in Inr (l', st'\<lparr> messages := messages st' @
                                     [TcsProgress (completed st') totalN (title l)] \<rparr>)))))\<close>

definition processLesson :: "lesson_env \<Rightarrow> nat \<Rightarrow> lesson \<Rightarrow> loop_state \<Rightarrow> lesson \<times> loop_state" where
  "processLesson env totalN l st =
     (let st1 = st\<lparr> processedLessons := processedLessons st + 1 \<rparr>
      in case lessonBody env totalN l st1 of
           Inr r \<Rightarrow> r
         | Inl msg \<Rightarrow> (failLesson l (or_else msg ''Unknown error''), st1))"

text \<open>
  The inner \<open>for\<close> loop over the lessons of one chapter.  The environment of an
  iteration is the one indexed by the number of lessons processed so far.  A set flag
  sends the cancellation message, sets \<open>cancelled\<close> and breaks: the remaining lessons
  are returned as they are.
\<close>

fun lessonLoop ::
    "(nat \<Rightarrow> lesson_env) \<Rightarrow> nat \<Rightarrow> lesson list \<Rightarrow> loop_state \<Rightarrow> lesson list \<times> loop_state" where
  "lessonLoop env totalN [] st = ([], st)"
| "lessonLoop env totalN (l # rest) st =
     (if cancelFlag (env (processedLessons st))
      then (l # rest,
            st\<lparr> cancelledVar := True,
                messages := messages st @ [TcsCancelled (completed st) totalN] \<rparr>)
      else (let (l', st') = processLesson (env (processedLessons st)) totalN l st;
                (rest', st'') = lessonLoop env totalN rest st'
            in (l' # rest', st'')))"

text \<open>The outer loop over the chapters, left as soon as \<open>cancelled\<close> is set.\<close>

fun chapterLoop ::
    "(nat \<Rightarrow> lesson_env) \<Rightarrow> nat \<Rightarrow> chapter_plan list \<Rightarrow> loop_state \<Rightarrow> chapter_plan list \<times> loop_state" where
  "chapterLoop env totalN [] st = ([], st)"
| "chapterLoop env totalN (c # rest) st =
     (if cancelledVar st then (c # rest, st)
      else (let (ls', st') = lessonLoop env totalN (lessons c) st;
                (rest', st'') = chapterLoop env totalN rest st'
            in (c\<lparr> lessons := ls' \<rparr> # rest', st'')))"

subsection \<open>The whole run\<close>

record page_env =
  documentTitle :: string
  locationHref :: string
  isoNow :: string
  planDocument :: element
  lessonEnv :: "nat \<Rightarrow> lesson_env"

text \<open>
  The run returns the messages sent to the popup and either the error thrown to the
  caller or the result document.  Every exception that leaves the body is rethrown by the
  outer \<open>catch\<close> with the prefix \<open>Course scraping failed:\<close>.
\<close>

definition clickThroughAndScrapeCourse :: "page_env \<Rightarrow> message list \<times> (string + result_document)" where
  "clickThroughAndScrapeCourse page =
     (let chapterElements = findElements (Arr SELECTORS_chapterContainer) (planDocument page)
      in if length chapterElements = 0
         then ([], Inl (''Course scraping failed: '' @
                        ''No chapters found. Make sure you are on the curriculum page.''))
         else
           (case buildChapters 0 chapterElements of
              Inl e \<Rightarrow> ([], Inl (''Course scraping failed: '' @ e))
            | Inr plan \<Rightarrow>
               (let totalN = countLessons plan;
                    st0 = \<lparr> completed = 0, processedLessons = 0, cancelledVar = False,
                            messages = [TcsInit totalN] \<rparr>;
                    (chs, st) = chapterLoop (lessonEnv page) totalN plan st0;
                    msgs = (if \<not> cancelledVar st
                            then messages st @ [TcsDone (completed st) totalN]
                            else messages st)
                in (msgs,
                    Inr \<lparr> cancelled = cancelledVar st,
                          courseTitle = or_else (documentTitle page) ''Unknown Course'',
                          curriculumUrl = locationHref page,
                          extractedAt = isoNow page,
                          totalChapters = length plan,
                          totalLessons = totalN,
                          chapters = chs \<rparr>))))"

section \<open>The course-map builder (content-scraper.js, \<open>buildCourseMap\<close>)\<close>
















section \<open>Vocabulary of the specification\<close>

text \<open>
  The words of a string: its maximal runs of characters that are not white space.
  Two strings differ only in letter case and in runs of leading, trailing or internal
  white space exactly when their words agree up to case.
\<close>

function tokens :: "string \<Rightarrow> string list" where
  "tokens [] = []"
| "tokens (c # cs) =
     (if isWhiteSpace c then tokens cs
      else (c # takeWhile (\<lambda>x. \<not> isWhiteSpace x) cs)
           # tokens (dropWhile (\<lambda>x. \<not> isWhiteSpace x) cs))"
  by pat_completeness auto
termination
  by (relation "measure length") (auto simp: less_Suc_eq_le length_dropWhile_le)

fun joinWithSpace :: "string list \<Rightarrow> string" where
  "joinWithSpace [] = []"
| "joinWithSpace [w] = w"
| "joinWithSpace (w # v # ws) = w @ CHR '' '' # joinWithSpace (v # ws)"

definition sameUpToCaseAndWhitespace :: "string \<Rightarrow> string \<Rightarrow> bool" where
  "sameUpToCaseAndWhitespace s t = (map toLowerCase (tokens s) = map toLowerCase (tokens t))"

text \<open>Auxiliary: removal of trailing white space, and collapsing after it.\<close>

definition trimEnd :: "string \<Rightarrow> string" where
  "trimEnd s = rev (dropWhile isWhiteSpace (rev s))"

definition collapseTrimEnd :: "string \<Rightarrow> string" where
  "collapseTrimEnd s = replaceWhitespaceRuns (trimEnd s)"

text \<open>
  The load check as the specification words it: the editor title matches when its text and
  the lesson title agree under the normalisation of the locate step (\<open>normalizeText\<close>,
  case-folded and white-space-collapsed).
\<close>

definition titleMatchesFolded :: "string \<Rightarrow> element \<Rightarrow> bool" where
  "titleMatchesFolded expectedTitle document =
     (case titleEl_loop editorTitleSelectors document of
        None \<Rightarrow> False
      | Some titleEl \<Rightarrow> normalizeText (textContent titleEl) = normalizeText expectedTitle)"

text \<open>
  The lessons of a plan in processing order, what one iteration of the loop makes of a
  lesson (the counters and the message log have no influence on it, see
  \<open>processLesson_fst\<close> below), and the number of progress messages in a log.
\<close>

definition flatLessons :: "chapter_plan list \<Rightarrow> lesson list" where
  "flatLessons chs = concat (map lessons chs)"

definition lessonOutcome :: "lesson_env \<Rightarrow> lesson \<Rightarrow> lesson" where
  "lessonOutcome env l =
     fst (processLesson env 0 l
            \<lparr> completed = 0, processedLessons = 0, cancelledVar = False, messages = [] \<rparr>)"

definition outcomesFrom :: "(nat \<Rightarrow> lesson_env) \<Rightarrow> nat \<Rightarrow> lesson list \<Rightarrow> lesson list" where
  "outcomesFrom env p ls = map (\<lambda>(i, l). lessonOutcome (env i) l) (enumerate p ls)"

fun isProgress :: "message \<Rightarrow> bool" where
  "isProgress (TcsProgress c t n) = True"
| "isProgress m = False"

fun isDone :: "message \<Rightarrow> bool" where
  "isDone (TcsDone c t) = True"
| "isDone m = False"

definition untouched :: "lesson \<Rightarrow> bool" where
  "untouched l \<longleftrightarrow>
     content l = None \<and> lessonTextContent l = None \<and> plainTextContent l = None \<and> error l = None"

text \<open>
  The plan that a run builds from the page it starts on (or the exception that ends the
  build), and the state the loop starts in.
\<close>

definition planOf :: "page_env \<Rightarrow> string + chapter_plan list" where
  "planOf page =
     buildChapters 0 (findElements (Arr SELECTORS_chapterContainer) (planDocument page))"

definition startState :: "nat \<Rightarrow> loop_state" where
  "startState totalN =
     \<lparr> completed = 0, processedLessons = 0, cancelledVar = False, messages = [TcsInit totalN] \<rparr>"

definition logOk :: "loop_state \<Rightarrow> bool" where
  "logOk st \<longleftrightarrow> completed st = length (filter isProgress (messages st))
      \<and> (\<forall>m \<in> set (messages st). \<not> isDone m)"

text \<open>
  The interaction with the located card can only throw when no clickable descendant is
  resolved by the registry and the direct query for a button throws.
\<close>

definition clickTargetResolves :: "element \<Rightarrow> bool" where
  \<open>clickTargetResolves cardEl =
     (case findElement (Arr SELECTORS_clickableLesson) cardEl of
        Some el \<Rightarrow> True
      | None \<Rightarrow>
          (case querySelector cardEl ''button, [role="button"]'' of
             Inl e \<Rightarrow> False
           | Inr r \<Rightarrow> True))\<close>

text \<open>
  The time since \<open>start\<close> at which the guard of the wait loop is evaluated for the
  \<open>i\<close>-th time: the delays so far and one sleep of 500 ms per earlier iteration.
\<close>

primrec pollTime :: "(nat \<Rightarrow> nat) \<Rightarrow> nat \<Rightarrow> nat" where
  "pollTime delay 0 = delay 0"
| "pollTime delay (Suc i) = pollTime delay i + 500 + delay (Suc i)"

section \<open>Deduplication (lesson-scraper.js)\<close>

record url_object =
  url :: string

record source = url_object +
  stype :: string
  provider :: "string option"
  filename :: "string option"

record download_file = url_object +
  dfilename :: string
  fileType :: string
  linkText :: string
  isAwsS3 :: bool

text \<open>
  Both functions run \<open>Array.prototype.filter\<close> with a callback that consults and
  extends the set \<open>seen\<close> and reads nothing but the \<open>url\<close> property of each
  object: the set is threaded through the traversal.
\<close>

fun filterSeen :: "string set \<Rightarrow> ('a url_object_scheme) list \<Rightarrow> ('a url_object_scheme) list" where
  "filterSeen seen [] = []"
| "filterSeen seen (s # rest) =
     (if url s \<in> seen then filterSeen seen rest
      else s # filterSeen (insert (url s) seen) rest)"

definition removeDuplicateSources :: "source list \<Rightarrow> source list" where
  "removeDuplicateSources sources = filterSeen {} sources"

definition removeDuplicateFiles :: "download_file list \<Rightarrow> download_file list" where
  "removeDuplicateFiles files = filterSeen {} files"

section \<open>Fixtures\<close>

text \<open>Small synthetic DOM fragments on which the results below are exercised.\<close>

definition leaf :: "string \<Rightarrow> string \<Rightarrow> string \<Rightarrow> string \<Rightarrow> element" where
  "leaf tag cls txt html =
     Element tag (Some cls) txt txt html html (\<lambda>_. Inr None) (\<lambda>_. Inr []) (Inr None)"

definition fx_heading :: element where
  "fx_heading = leaf ''H2'' '''' ''Welcome'' ''<h2>Welcome</h2>''"

definition fx_para :: element where
  "fx_para = leaf ''P'' '''' ''Body'' ''<p>Body</p>''"

definition fx_context :: element where
  "fx_context =
     Element ''DIV'' (Some '''') ''WelcomeBody'' ''WelcomeBody'' '''' ''''
       (\<lambda>s. if s = ''h1['' then Inl ''SyntaxError''
             else if s = ''h2'' then Inr (Some fx_heading)
             else if s = ''h2, p'' then Inr (Some fx_heading)
             else Inr None)
       (\<lambda>s. if s = ''h1['' then Inl ''SyntaxError''
             else if s = ''h2'' then Inr [fx_heading]
             else if s = ''h2, p'' then Inr [fx_heading, fx_para]
             else Inr [])
       (Inr None)"

text \<open>
  A curriculum page with two chapters of three and two lessons.  The editor panel shows
  the title \<open>shown\<close> and the text \<open>body\<close>.
\<close>

definition fx_card :: "string \<Rightarrow> element" where
  \<open>fx_card t =
     Element ''DIV'' (Some ''content-card_kNCsI'') t t t t
       (\<lambda>s. if s = ''.content-card__name_GVtnt'' then Inr (Some (leaf ''SPAN'' '''' t t))
             else Inr None)
       (\<lambda>s. if s = ''.content-card__name_GVtnt'' then Inr [leaf ''SPAN'' '''' t t]
             else Inr [])
       (Inr None)\<close>

definition fx_chapter :: "string \<Rightarrow> string list \<Rightarrow> element" where
  \<open>fx_chapter t ts =
     Element ''DIV'' (Some ''chapter-card_FVZUV'') t t t t
       (\<lambda>s. if s = ''[data-qa="accordion-title"]'' then Inr (Some (leaf ''SPAN'' '''' t t))
             else if s = ''.content-card_kNCsI'' then Inr (case ts of [] \<Rightarrow> None | x # _ \<Rightarrow> Some (fx_card x))
             else Inr None)
       (\<lambda>s. if s = ''[data-qa="accordion-title"]'' then Inr [leaf ''SPAN'' '''' t t]
             else if s = ''.content-card_kNCsI'' then Inr (map fx_card ts)
             else Inr [])
       (Inr None)\<close>

definition fx_document :: "string \<Rightarrow> string \<Rightarrow> element" where
  \<open>fx_document shown body =
     Element ''HTML'' (Some '''') '''' '''' '''' ''''
       (\<lambda>s. if s = ''.chapter-card_FVZUV'' then Inr (Some (fx_chapter ''One'' [''Intro'', ''Setup'', ''Basics'']))
             else if s = ''.content-card_kNCsI'' then Inr (Some (fx_card ''Intro''))
             else if s = ''[data-qa="lesson-title"]'' then Inr (Some (leaf ''H1'' '''' shown shown))
             else if s = ''.fr-element.fr-view'' then Inr (Some (leaf ''DIV'' ''fr-element fr-view'' body body))
             else Inr None)
       (\<lambda>s. if s = ''.chapter-card_FVZUV''
               then Inr [fx_chapter ''One'' [''Intro'', ''Setup'', ''Basics''],
                         fx_chapter ''Two'' [''Advanced'', ''Summary'']]
             else if s = ''.content-card_kNCsI''
               then Inr (map fx_card [''Intro'', ''Setup'', ''Basics'', ''Advanced'', ''Summary''])
             else if s = ''[data-qa="lesson-title"]'' then Inr [leaf ''H1'' '''' shown shown]
             else if s = ''.fr-element.fr-view'' then Inr [leaf ''DIV'' ''fr-element fr-view'' body body]
             else Inr [])
       (Inr None)\<close>

definition fx_titles :: "string list" where
  "fx_titles = [''Intro'', ''Setup'', ''Basics'', ''Advanced'', ''Summary'']"

text \<open>
  While lesson \<open>i\<close> is processed the editor shows that lesson after the first poll;
  every poll comes 20 ms late.  The cancellation flag is found set from iteration \<open>k\<close>
  on.
\<close>

definition fx_lessonEnv :: "nat \<Rightarrow> nat \<Rightarrow> lesson_env" where
  "fx_lessonEnv k i =
     \<lparr> cancelFlag = (k \<le> i),
       locateDocument = fx_document '''' '''',
       interactionError = None,
       pollDelay = (\<lambda>n. 20),
       pollDocument = (\<lambda>n. if n = 0 then fx_document ''Loading'' ''''
                            else fx_document (fx_titles ! i) (''Text of '' @ fx_titles ! i)),
       extractDocument = fx_document (fx_titles ! i) (''Text of '' @ fx_titles ! i) \<rparr>"

definition fx_page :: "nat \<Rightarrow> page_env" where
  "fx_page k =
     \<lparr> documentTitle = ''Course'',
       locationHref = ''https://school.thinkific.com/manage/courses/1'',
       isoNow = ''2025-11-30T12:00:00.000Z'',
       planDocument = fx_document '''' '''',
       lessonEnv = fx_lessonEnv k \<rparr>"

text \<open>
  Two lesson cards that declare their type in an attribute: one without any icon element,
  one with an icon whose markup names no type.
\<close>

definition fx_lesson_no_icon :: element where
  \<open>fx_lesson_no_icon =
     leaf ''DIV'' ''lesson'' ''Intro'' ''<div class="lesson" data-type="video">Intro</div>''\<close>

definition fx_plain_icon :: element where
  \<open>fx_plain_icon = leaf ''SPAN'' ''icon'' '''' ''<span class="icon"></span>''\<close>

definition fx_lesson_plain_icon :: element where
  \<open>fx_lesson_plain_icon =
     Element ''DIV'' (Some ''lesson'') ''Intro'' ''Intro''
       ''<span class="icon"></span>Intro''
       ''<div class="lesson" data-type="video"><span class="icon"></span>Intro</div>''
       (\<lambda>s. if s = ''[class*="icon"]'' then Inr (Some fx_plain_icon) else Inr None)
       (\<lambda>s. if s = ''[class*="icon"]'' then Inr [fx_plain_icon] else Inr [])
       (Inr None)\<close>

text \<open>An editor panel that shows the title \<open>intro lesson\<close> at every poll.\<close>

definition fx_polls_lowercase :: "nat \<Rightarrow> element" where
  "fx_polls_lowercase i = fx_document ''intro lesson'' ''Body''"

text \<open>
  The same course, never cancelled, with three kinds of failure: lesson 1 (\<open>Setup\<close>)
  never shows up in the editor (no title element at any poll), the card of lesson 3
  (\<open>Advanced\<close>) is not in the page when its turn comes, and the editor of lesson 4
  (\<open>Summary\<close>) cannot be found.
\<close>

definition fx_emptyDocument :: element where
  "fx_emptyDocument = leaf ''HTML'' '''' '''' ''''"

definition fx_noEditorDocument :: "string \<Rightarrow> element" where
  \<open>fx_noEditorDocument shown =
     Element ''HTML'' (Some '''') '''' '''' '''' ''''
       (\<lambda>s. if s = ''[data-qa="lesson-title"]'' then Inr (Some (leaf ''H1'' '''' shown shown))
             else Inr None)
       (\<lambda>s. if s = ''[data-qa="lesson-title"]'' then Inr [leaf ''H1'' '''' shown shown]
             else Inr [])
       (Inr None)\<close>

definition fx_failingEnv :: "nat \<Rightarrow> lesson_env" where
  "fx_failingEnv i =
     (if i = 1 then (fx_lessonEnv 5 i)\<lparr> pollDocument := (\<lambda>n. fx_emptyDocument) \<rparr>
      else if i = 3 then (fx_lessonEnv 5 i)\<lparr> locateDocument := fx_emptyDocument \<rparr>
      else if i = 4 then (fx_lessonEnv 5 i)\<lparr> extractDocument := fx_noEditorDocument ''Summary'' \<rparr>
      else fx_lessonEnv 5 i)"

definition fx_page_failures :: page_env where
  "fx_page_failures = (fx_page 5)\<lparr> lessonEnv := fx_failingEnv \<rparr>"


definition fx_setup_lesson :: lesson where
  "fx_setup_lesson =
     \<lparr> chapterIndex = 0, lessonIndex = 1, title = ''Setup'', ltype = ''unknown'',
       content = None, lessonTextContent = None, plainTextContent = None, error = None \<rparr>"



text \<open>
  A curriculum page with one chapter of two lessons, the second of which has an SVG icon:
  the icon is resolved by the selector \<open>svg\<close> and its \<open>className\<close> is not a string.
\<close>

definition fx_svg_icon :: element where
  \<open>fx_svg_icon =
     Element ''svg'' None '''' '''' ''<path></path>'' ''<svg class="content-video"><path></path></svg>''
       (\<lambda>_. Inr None) (\<lambda>_. Inr []) (Inr None)\<close>

definition fx_svg_card :: element where
  \<open>fx_svg_card =
     Element ''DIV'' (Some ''content-card_kNCsI'') ''Clip'' ''Clip'' ''Clip'' ''Clip''
       (\<lambda>s. if s = ''.content-card__name_GVtnt'' then Inr (Some (leaf ''SPAN'' '''' ''Clip'' ''Clip''))
             else if s = ''svg'' then Inr (Some fx_svg_icon)
             else Inr None)
       (\<lambda>s. if s = ''.content-card__name_GVtnt'' then Inr [leaf ''SPAN'' '''' ''Clip'' ''Clip'']
             else if s = ''svg'' then Inr [fx_svg_icon]
             else Inr [])
       (Inr None)\<close>

definition fx_svg_chapter :: element where
  \<open>fx_svg_chapter =
     Element ''DIV'' (Some ''chapter-card_FVZUV'') ''One'' ''One'' ''One'' ''One''
       (\<lambda>s. if s = ''.content-card_kNCsI'' then Inr (Some (fx_card ''Intro'')) else Inr None)
       (\<lambda>s. if s = ''.content-card_kNCsI'' then Inr [fx_card ''Intro'', fx_svg_card] else Inr [])
       (Inr None)\<close>

definition fx_svg_document :: element where
  \<open>fx_svg_document =
     Element ''HTML'' (Some []) '''' '''' '''' ''''
       (\<lambda>s. if s = ''.chapter-card_FVZUV'' then Inr (Some fx_svg_chapter) else Inr None)
       (\<lambda>s. if s = ''.chapter-card_FVZUV'' then Inr [fx_svg_chapter] else Inr [])
       (Inr None)\<close>

definition fx_page_svg :: page_env where
  "fx_page_svg = (fx_page 5)\<lparr> planDocument := fx_svg_document \<rparr>"

text \<open>Polls that are never late.\<close>

definition fx_no_delay :: "nat \<Rightarrow> nat" where
  "fx_no_delay i = 0"

text \<open>Three video sources, the third repeating the url of the first.\<close>

definition fx_sources :: "source list" where
  "fx_sources =
     [\<lparr> url = ''https://cdn.example/a.mp4'', stype = ''unknown'', provider = None, filename = None \<rparr>,
      \<lparr> url = ''https://cdn.example/b.mp4'', stype = ''embed'', provider = Some ''vimeo'', filename = None \<rparr>,
      \<lparr> url = ''https://cdn.example/a.mp4'', stype = ''aws-s3'', provider = None, filename = Some ''a.mp4'' \<rparr>]"

section \<open>Selector resolution: results\<close>

lemma findElement_loop_None:
  "(\<forall>s \<in> set sels. \<forall>e. querySelector ctx s \<noteq> Inr (Some e)) \<Longrightarrow> findElement_loop sels ctx = None"
  by (induction sels) (auto split: sum.splits option.splits)

lemma findElement_loop_first:
  "i < length sels \<Longrightarrow> querySelector ctx (sels ! i) = Inr (Some el) \<Longrightarrow>
   (\<forall>j<i. \<forall>e. querySelector ctx (sels ! j) \<noteq> Inr (Some e)) \<Longrightarrow>
   findElement_loop sels ctx = Some el"
proof (induction sels arbitrary: i)
  case Nil
  then show ?case by simp
next
  case (Cons s rest)
  show ?case
  proof (cases i)
    case 0
    with Cons.prems show ?thesis by simp
  next
    case (Suc k)
    with Cons.prems have k: "k < length rest" "querySelector ctx (rest ! k) = Inr (Some el)"
      by simp_all
    from Cons.prems(3) Suc have "\<forall>e. querySelector ctx s \<noteq> Inr (Some e)"
      by (metis nth_Cons_0 zero_less_Suc)
    moreover from Cons.prems(3) Suc have "\<forall>j<k. \<forall>e. querySelector ctx (rest ! j) \<noteq> Inr (Some e)"
      by (metis Suc_less_eq nth_Cons_Suc)
    ultimately show ?thesis using Cons.IH[OF k]
      by (auto split: sum.splits option.splits)
  qed
qed

lemma findElement_loop_skip:
  "querySelector ctx s = Inl e \<Longrightarrow>
   findElement_loop (pre @ s # post) ctx = findElement_loop (pre @ post) ctx"
  by (induction pre) (auto split: sum.splits option.splits)

text \<open>
  Claim C6.  \<open>findElement\<close> tries the selectors in listed order: it returns the element
  matched by the first selector that matches anything, whatever the earlier selectors did
  (no match, or an exception); it returns \<open>null\<close> when no selector matches; and a
  selector that throws is skipped, so that removing it from the list does not change the
  result.
\<close>

theorem findElement_first_match:
  "(\<forall>i el. i < length sels \<and> querySelector ctx (sels ! i) = Inr (Some el)
        \<and> (\<forall>j<i. \<forall>e. querySelector ctx (sels ! j) \<noteq> Inr (Some e))
      \<longrightarrow> findElement (Arr sels) ctx = Some el)
   \<and> ((\<forall>s \<in> set sels. \<forall>e. querySelector ctx s \<noteq> Inr (Some e))
      \<longrightarrow> findElement (Arr sels) ctx = None)
   \<and> (\<forall>pre s post e. querySelector ctx s = Inl e
      \<longrightarrow> findElement (Arr (pre @ s # post)) ctx = findElement (Arr (pre @ post)) ctx)"
  unfolding findElement_def toSelectorArray.simps
  using findElement_loop_first findElement_loop_None findElement_loop_skip by blast

theorem findElement_first_match_witness:
  "findElement (Arr [''h1['', ''.missing'', ''h2'', ''h2, p'']) fx_context = Some fx_heading
   \<and> findElement (Arr [''h1['', ''.missing'']) fx_context = None
   \<and> findElement (Arr ([''.missing''] @ ''h1['' # [''h2''])) fx_context
       = findElement (Arr ([''.missing''] @ [''h2''])) fx_context"
proof -
  let ?sels = "[''h1['', ''.missing'', ''h2'', ''h2, p'']"
  have q0: "querySelector fx_context ''h1['' = Inl ''SyntaxError''"
    and q1: "querySelector fx_context ''.missing'' = Inr None"
    and q2: "querySelector fx_context ''h2'' = Inr (Some fx_heading)"
    by (simp_all add: fx_context_def)
  have before: "\<forall>j<2. \<forall>e. querySelector fx_context (?sels ! j) \<noteq> Inr (Some e)"
    using q0 q1 by (simp add: less_Suc_eq numeral_2_eq_2)
  have none: "\<forall>s \<in> set [''h1['', ''.missing'']. \<forall>e. querySelector fx_context s \<noteq> Inr (Some e)"
    using q0 q1 by simp
  have at2: "(2::nat) < length ?sels \<and> querySelector fx_context (?sels ! 2) = Inr (Some fx_heading)"
    using q2 by simp
  from findElement_first_match[of ?sels fx_context, THEN conjunct1, rule_format, of 2 fx_heading]
    at2 before
  have a: "findElement (Arr ?sels) fx_context = Some fx_heading" by blast
  from findElement_first_match[of "[''h1['', ''.missing'']" fx_context] none
  have b: "findElement (Arr [''h1['', ''.missing'']) fx_context = None" by blast
  from findElement_first_match[of "[]" fx_context] q0
  have c: "findElement (Arr ([''.missing''] @ ''h1['' # [''h2''])) fx_context
       = findElement (Arr ([''.missing''] @ [''h2''])) fx_context" by blast
  from a b c show ?thesis by blast
qed

lemma findElements_loop_empty:
  "(\<forall>s \<in> set sels. querySelectorAll ctx s = Inr [] \<or> (\<exists>e. querySelectorAll ctx s = Inl e))
   \<Longrightarrow> findElements_loop sels ctx = []"
  by (induction sels) (auto split: sum.splits)

lemma findElements_loop_first:
  "i < length sels \<Longrightarrow> querySelectorAll ctx (sels ! i) = Inr ms \<Longrightarrow> ms \<noteq> [] \<Longrightarrow>
   (\<forall>j<i. querySelectorAll ctx (sels ! j) = Inr [] \<or> (\<exists>e. querySelectorAll ctx (sels ! j) = Inl e)) \<Longrightarrow>
   findElements_loop sels ctx = ms"
proof (induction sels arbitrary: i)
  case Nil
  then show ?case by simp
next
  case (Cons s rest)
  show ?case
  proof (cases i)
    case 0
    with Cons.prems show ?thesis by simp
  next
    case (Suc k)
    with Cons.prems have k: "k < length rest" "querySelectorAll ctx (rest ! k) = Inr ms"
      by simp_all
    from Cons.prems(4) Suc have "querySelectorAll ctx s = Inr [] \<or> (\<exists>e. querySelectorAll ctx s = Inl e)"
      by (metis nth_Cons_0 zero_less_Suc)
    moreover from Cons.prems(4) Suc
    have "\<forall>j<k. querySelectorAll ctx (rest ! j) = Inr [] \<or> (\<exists>e. querySelectorAll ctx (rest ! j) = Inl e)"
      by (metis Suc_less_eq nth_Cons_Suc)
    ultimately show ?thesis using Cons.IH[OF k \<open>ms \<noteq> []\<close>]
      by (auto split: sum.splits)
  qed
qed

text \<open>
  Claim C4.  \<open>findElements\<close> returns exactly the matches of the first selector, in list
  order, that yields at least one match, every earlier selector having yielded nothing or
  thrown; later selectors are not consulted and nothing is merged.  It returns the empty
  sequence when every selector yields nothing or throws.
\<close>

theorem findElements_first_selector_only:
  "(\<forall>i ms. i < length sels \<and> querySelectorAll ctx (sels ! i) = Inr ms \<and> ms \<noteq> []
        \<and> (\<forall>j<i. querySelectorAll ctx (sels ! j) = Inr [] \<or> (\<exists>e. querySelectorAll ctx (sels ! j) = Inl e))
      \<longrightarrow> findElements (Arr sels) ctx = ms)
   \<and> ((\<forall>s \<in> set sels. querySelectorAll ctx s = Inr [] \<or> (\<exists>e. querySelectorAll ctx s = Inl e))
      \<longrightarrow> findElements (Arr sels) ctx = [])"
  unfolding findElements_def toSelectorArray.simps
  using findElements_loop_first findElements_loop_empty by blast

theorem findElements_first_selector_only_witness:
  "findElements (Arr [''h1['', ''.missing'', ''h2'', ''h2, p'']) fx_context = [fx_heading]
   \<and> findElements (Arr [''h1['', ''.missing'']) fx_context = []"
proof -
  let ?sels = "[''h1['', ''.missing'', ''h2'', ''h2, p'']"
  have q0: "querySelectorAll fx_context ''h1['' = Inl ''SyntaxError''"
    and q1: "querySelectorAll fx_context ''.missing'' = Inr []"
    and q2: "querySelectorAll fx_context ''h2'' = Inr [fx_heading]"
    by (simp_all add: fx_context_def)
  have before: "\<forall>j<2. querySelectorAll fx_context (?sels ! j) = Inr []
                  \<or> (\<exists>e. querySelectorAll fx_context (?sels ! j) = Inl e)"
    using q0 q1 by (simp add: less_Suc_eq numeral_2_eq_2)
  have none: "\<forall>s \<in> set [''h1['', ''.missing'']. querySelectorAll fx_context s = Inr []
                  \<or> (\<exists>e. querySelectorAll fx_context s = Inl e)"
    using q0 q1 by simp
  have at2: "(2::nat) < length ?sels \<and> querySelectorAll fx_context (?sels ! 2) = Inr [fx_heading]"
    using q2 by simp
  from findElements_first_selector_only[of ?sels fx_context, THEN conjunct1, rule_format, of 2 "[fx_heading]"]
    at2 before
  have a: "findElements (Arr ?sels) fx_context = [fx_heading]" by blast
  from findElements_first_selector_only[of "[''h1['', ''.missing'']" fx_context] none
  have b: "findElements (Arr [''h1['', ''.missing'']) fx_context = []" by blast
  from a b show ?thesis by blast
qed

section \<open>Deduplication: results\<close>

lemma filterSeen_urls: "url ` set (filterSeen seen xs) = url ` set xs - seen"
  by (induction xs arbitrary: seen) auto

lemma filterSeen_distinct: "distinct (map url (filterSeen seen xs))"
  by (induction xs arbitrary: seen) (auto simp: filterSeen_urls)

lemma filterSeen_subseq: "subseq (filterSeen seen xs) xs"
  by (induction xs arbitrary: seen) auto

lemma filterSeen_find:
  "u \<notin> seen \<Longrightarrow> find (\<lambda>s. url s = u) (filterSeen seen xs) = find (\<lambda>s. url s = u) xs"
  by (induction xs arbitrary: seen) auto

lemma filterSeen_fixed:
  "distinct (map url ys) \<Longrightarrow> set (map url ys) \<inter> seen = {} \<Longrightarrow> filterSeen seen ys = ys"
  by (induction ys arbitrary: seen) auto

lemma filterSeen_idem: "filterSeen seen (filterSeen seen xs) = filterSeen seen xs"
  by (rule filterSeen_fixed) (auto simp: filterSeen_distinct filterSeen_urls)

text \<open>
  Claim C10.  \<open>removeDuplicateSources\<close> and \<open>removeDuplicateFiles\<close> keep the first
  record of every url: the urls of the output are pairwise distinct and are exactly the
  urls of the input, the first record with a given url is the same in the output as in the
  input, the output is a subsequence of the input (relative order kept), and a second
  application changes nothing.
\<close>

theorem removeDuplicates_first_occurrences:
  "distinct (map url (removeDuplicateSources sources))
   \<and> set (map url (removeDuplicateSources sources)) = set (map url sources)
   \<and> (\<forall>u. find (\<lambda>s. url s = u) (removeDuplicateSources sources) = find (\<lambda>s. url s = u) sources)
   \<and> subseq (removeDuplicateSources sources) sources
   \<and> removeDuplicateSources (removeDuplicateSources sources) = removeDuplicateSources sources
   \<and> distinct (map url (removeDuplicateFiles files))
   \<and> set (map url (removeDuplicateFiles files)) = set (map url files)
   \<and> (\<forall>u. find (\<lambda>f. url f = u) (removeDuplicateFiles files) = find (\<lambda>f. url f = u) files)
   \<and> subseq (removeDuplicateFiles files) files
   \<and> removeDuplicateFiles (removeDuplicateFiles files) = removeDuplicateFiles files"
  unfolding removeDuplicateSources_def removeDuplicateFiles_def
  by (simp add: filterSeen_distinct filterSeen_urls filterSeen_find filterSeen_subseq filterSeen_idem)


theorem removeDuplicates_first_occurrences_witness:
  "removeDuplicateSources fx_sources = take 2 fx_sources
   \<and> distinct (map url (removeDuplicateSources fx_sources))
   \<and> removeDuplicateSources (removeDuplicateSources fx_sources) = removeDuplicateSources fx_sources"
proof -
  have "removeDuplicateSources fx_sources = take 2 fx_sources"
    by (simp add: removeDuplicateSources_def fx_sources_def)
  with removeDuplicates_first_occurrences[of fx_sources "[]"] show ?thesis by simp
qed

section \<open>Title normalisation: results\<close>

lemma of_char_lower:
  "(of_char (toLowerCaseChar c) :: nat) =
     (let n = (of_char c :: nat)
      in if (65 \<le> n \<and> n \<le> 90) \<or> (192 \<le> n \<and> n \<le> 214) \<or> (216 \<le> n \<and> n \<le> 222)
         then n + 32 else n)"
  by (auto simp: toLowerCaseChar_def Let_def)

lemma isWhiteSpace_lower [simp]: "isWhiteSpace (toLowerCaseChar c) = isWhiteSpace c"
  unfolding isWhiteSpace_def of_char_lower Let_def by auto

lemma lower_idem [simp]: "toLowerCaseChar (toLowerCaseChar c) = toLowerCaseChar c"
proof -
  have "(of_char (toLowerCaseChar (toLowerCaseChar c)) :: nat) = of_char (toLowerCaseChar c)"
    unfolding of_char_lower[of "toLowerCaseChar c"] Let_def
    unfolding of_char_lower[of c] Let_def by auto
  then show ?thesis by (metis char_of_char)
qed

lemma lower_space [simp]: "toLowerCaseChar (CHR '' '') = CHR '' ''"
  by code_simp

lemma space_ws [simp]: "isWhiteSpace (CHR '' '')"
  by code_simp

lemma tokens_empty_iff: "tokens s = [] \<longleftrightarrow> (\<forall>c \<in> set s. isWhiteSpace c)"
  by (induction s rule: tokens.induct) auto

lemma tokens_dropWhile [simp]: "tokens (dropWhile isWhiteSpace s) = tokens s"
  by (induction s) auto

lemma trimEnd_Nil [simp]: "trimEnd [] = []"
  by (simp add: trimEnd_def)

lemma trimEnd_Cons:
  "trimEnd (c # cs) = (if \<forall>x \<in> set (c # cs). isWhiteSpace x then [] else c # trimEnd cs)"
  by (auto simp: trimEnd_def dropWhile_append)

lemma trimEnd_all_ws: "(\<forall>x \<in> set s. isWhiteSpace x) \<Longrightarrow> trimEnd s = []"
  by (simp add: trimEnd_def)

lemma dropWhile_all: "\<forall>x \<in> set xs. P x \<Longrightarrow> dropWhile P xs = []"
  by (simp add: dropWhile_eq_Nil_conv)

lemma trimEnd_dropWhile: "dropWhile isWhiteSpace (trimEnd s) = trimEnd (dropWhile isWhiteSpace s)"
proof (induction s)
  case Nil
  then show ?case by simp
next
  case (Cons c cs)
  show ?case
  proof (cases "isWhiteSpace c")
    case True
    show ?thesis
    proof (cases "\<forall>x \<in> set cs. isWhiteSpace x")
      case True
      with \<open>isWhiteSpace c\<close> show ?thesis
        by (simp add: trimEnd_Cons trimEnd_all_ws dropWhile_all)
    next
      case False
      with \<open>isWhiteSpace c\<close> Cons.IH show ?thesis
        by (auto simp add: trimEnd_Cons)
    qed
  next
    case False
    then show ?thesis by (simp add: trimEnd_Cons)
  qed
qed

lemma trim_trimEnd: "trim s = trimEnd (dropWhile isWhiteSpace s)"
  by (simp add: trim_def trimEnd_def)

lemma N_Nil [simp]: "collapseTrimEnd [] = []" by (simp add: collapseTrimEnd_def)

lemma N_nonws: "\<not> isWhiteSpace c \<Longrightarrow> collapseTrimEnd (c # cs) = c # collapseTrimEnd cs"
  by (auto simp: collapseTrimEnd_def trimEnd_Cons)

lemma N_ws: "isWhiteSpace c \<Longrightarrow>
  collapseTrimEnd (c # cs) = (if \<forall>x \<in> set cs. isWhiteSpace x then [] else CHR '' '' # collapseTrimEnd (dropWhile isWhiteSpace cs))"
  by (auto simp: collapseTrimEnd_def trimEnd_Cons trimEnd_dropWhile)

lemma N_prefix: "\<forall>x \<in> set w. \<not> isWhiteSpace x \<Longrightarrow> collapseTrimEnd (w @ r) = w @ collapseTrimEnd r"
  by (induction w) (auto simp: N_nonws)

lemma N_tokens:
  "collapseTrimEnd s = (if s \<noteq> [] \<and> isWhiteSpace (hd s) \<and> tokens s \<noteq> [] then CHR '' '' # joinWithSpace (tokens s)
          else joinWithSpace (tokens s))"
proof (induction "length s" arbitrary: s rule: less_induct)
  case less
  show ?case
  proof (cases s)
    case Nil
    then show ?thesis by simp
  next
    case (Cons c cs)
    show ?thesis
    proof (cases "isWhiteSpace c")
      case True
      show ?thesis
      proof (cases "\<forall>x \<in> set cs. isWhiteSpace x")
        case allws: True
        then have "tokens cs = []" by (simp add: tokens_empty_iff)
        with True allws Cons show ?thesis by (simp add: N_ws)
      next
        case notall: False
        let ?r = "dropWhile isWhiteSpace cs"
        have r_ne: "?r \<noteq> []" using notall by (simp add: dropWhile_eq_Nil_conv)
        then have hd_r: "\<not> isWhiteSpace (hd ?r)" by (rule hd_dropWhile)
        have "length ?r < length s" using Cons
          by (simp add: less_Suc_eq_le length_dropWhile_le)
        from less[OF this] hd_r have "collapseTrimEnd ?r = joinWithSpace (tokens cs)" by simp
        moreover have "tokens cs \<noteq> []" using notall by (simp add: tokens_empty_iff)
        ultimately show ?thesis using True notall Cons by (simp add: N_ws)
      qed
    next
      case False
      let ?w = "takeWhile (\<lambda>x. \<not> isWhiteSpace x) cs"
      let ?r = "dropWhile (\<lambda>x. \<not> isWhiteSpace x) cs"
      have "collapseTrimEnd cs = collapseTrimEnd (?w @ ?r)" by simp
      also have "\<dots> = ?w @ collapseTrimEnd ?r"
        by (rule N_prefix) (auto dest: set_takeWhileD)
      finally have Ncs: "collapseTrimEnd cs = ?w @ collapseTrimEnd ?r" .
      have "length ?r < length s" using Cons
        by (simp add: less_Suc_eq_le length_dropWhile_le)
      note IH = less[OF this]
      have Nr: "collapseTrimEnd ?r = (if tokens ?r = [] then [] else CHR '' '' # joinWithSpace (tokens ?r))"
      proof (cases "tokens ?r = []")
        case True
        with IH show ?thesis by simp
      next
        case tne: False
        then have "?r \<noteq> []" by (metis tokens.simps(1))
        then have "isWhiteSpace (hd ?r)" using hd_dropWhile[of "\<lambda>x. \<not> isWhiteSpace x" cs] by simp
        with IH tne \<open>?r \<noteq> []\<close> show ?thesis by simp
      qed
      have "joinWithSpace ((c # ?w) # tokens ?r) = c # ?w @ collapseTrimEnd ?r"
        unfolding Nr by (cases "tokens ?r") auto
      with False Cons Ncs show ?thesis by (simp add: N_nonws)
    qed
  qed
qed

lemma collapse_trim: "replaceWhitespaceRuns (trim s) = joinWithSpace (tokens s)"
proof -
  let ?r = "dropWhile isWhiteSpace s"
  have "replaceWhitespaceRuns (trim s) = collapseTrimEnd ?r" by (simp add: trim_trimEnd collapseTrimEnd_def)
  also have "\<dots> = joinWithSpace (tokens ?r)"
  proof (cases "?r = []")
    case True
    have "tokens ?r = []" unfolding True by simp
    moreover have "collapseTrimEnd ?r = []" unfolding True by simp
    ultimately show ?thesis by (simp only: joinWithSpace.simps)
  next
    case False
    then have "\<not> isWhiteSpace (hd ?r)" by (rule hd_dropWhile)
    then show ?thesis by (subst N_tokens) simp
  qed
  finally show ?thesis by simp
qed

lemma normalizeText_tokens: "normalizeText s = toLowerCase (joinWithSpace (tokens s))"
  by (cases "s = []") (simp_all add: normalizeText_def collapse_trim toLowerCase_def)

lemma tokens_wellformed:
  "t \<in> set (tokens s) \<Longrightarrow> t \<noteq> [] \<and> (\<forall>c \<in> set t. \<not> isWhiteSpace c)"
proof (induction s rule: tokens.induct)
  case 1
  then show ?case by simp
next
  case (2 c cs)
  show ?case
  proof (cases "isWhiteSpace c")
    case True
    with 2 show ?thesis by simp
  next
    case False
    with 2(3) have "t = c # takeWhile (\<lambda>x. \<not> isWhiteSpace x) cs
        \<or> t \<in> set (tokens (dropWhile (\<lambda>x. \<not> isWhiteSpace x) cs))"
      by simp
    then show ?thesis
    proof
      assume t: "t = c # takeWhile (\<lambda>x. \<not> isWhiteSpace x) cs"
      have "\<forall>x \<in> set (takeWhile (\<lambda>x. \<not> isWhiteSpace x) cs). \<not> isWhiteSpace x"
        by (blast dest: set_takeWhileD)
      with t False show ?thesis by simp
    next
      assume "t \<in> set (tokens (dropWhile (\<lambda>x. \<not> isWhiteSpace x) cs))"
      with 2(2)[OF False] show ?thesis by blast
    qed
  qed
qed

lemma tokens_word_append:
  assumes "w \<noteq> []" "\<forall>c \<in> set w. \<not> isWhiteSpace c" "r = [] \<or> isWhiteSpace (hd r)"
  shows "tokens (w @ r) = w # tokens r"
proof -
  from assms(1) obtain c w' where w: "w = c # w'" by (cases w) auto
  have tw: "takeWhile (\<lambda>x. \<not> isWhiteSpace x) (w' @ r) = w'"
    using assms(2,3) w by (cases r) (auto simp: takeWhile_append2)
  have dw: "dropWhile (\<lambda>x. \<not> isWhiteSpace x) (w' @ r) = r"
    using assms(2,3) w by (cases r) (auto simp: dropWhile_append2)
  show ?thesis using assms(2) w tw dw by simp
qed

lemma tokens_join:
  "\<forall>t \<in> set ts. t \<noteq> [] \<and> (\<forall>c \<in> set t. \<not> isWhiteSpace c) \<Longrightarrow> tokens (joinWithSpace ts) = ts"
proof (induction ts rule: joinWithSpace.induct)
  case 1
  then show ?case by simp
next
  case (2 w)
  then show ?case using tokens_word_append[of w "[]"] by simp
next
  case (3 w v ws)
  then have "tokens (w @ CHR '' '' # joinWithSpace (v # ws)) = w # tokens (CHR '' '' # joinWithSpace (v # ws))"
    by (intro tokens_word_append) auto
  with 3 show ?case by simp
qed

lemma takeWhile_map_lower:
  "takeWhile (\<lambda>x. \<not> isWhiteSpace x) (map toLowerCaseChar cs)
     = map toLowerCaseChar (takeWhile (\<lambda>x. \<not> isWhiteSpace x) cs)"
  by (induction cs) auto

lemma dropWhile_map_lower:
  "dropWhile (\<lambda>x. \<not> isWhiteSpace x) (map toLowerCaseChar cs)
     = map toLowerCaseChar (dropWhile (\<lambda>x. \<not> isWhiteSpace x) cs)"
  by (induction cs) auto

lemma tokens_lower: "tokens (toLowerCase s) = map toLowerCase (tokens s)"
  unfolding toLowerCase_def
  by (induction s rule: tokens.induct) (auto simp: takeWhile_map_lower dropWhile_map_lower)

lemma lower_join: "toLowerCase (joinWithSpace ts) = joinWithSpace (map toLowerCase ts)"
  by (induction ts rule: joinWithSpace.induct) (auto simp: toLowerCase_def)

lemma lower_lower: "toLowerCase (toLowerCase s) = toLowerCase s"
  by (simp add: toLowerCase_def)

lemma normalizeText_idem: "normalizeText (normalizeText s) = normalizeText s"
proof -
  have wf: "\<forall>t \<in> set (map toLowerCase (tokens s)). t \<noteq> [] \<and> (\<forall>c \<in> set t. \<not> isWhiteSpace c)"
    using tokens_wellformed[of _ s] by (auto simp: toLowerCase_def)
  have "tokens (normalizeText s) = map toLowerCase (tokens s)"
    unfolding normalizeText_tokens lower_join by (rule tokens_join[OF wf])
  then have "normalizeText (normalizeText s)
      = toLowerCase (joinWithSpace (map toLowerCase (tokens s)))"
    by (simp add: normalizeText_tokens[of "normalizeText s"])
  also have "\<dots> = toLowerCase (toLowerCase (joinWithSpace (tokens s)))"
    by (simp add: lower_join)
  finally show ?thesis by (simp add: lower_lower normalizeText_tokens[of s])
qed

lemma normalizeText_same:
  "sameUpToCaseAndWhitespace s t \<Longrightarrow> normalizeText s = normalizeText t"
  by (simp add: sameUpToCaseAndWhitespace_def normalizeText_tokens lower_join)

text \<open>
  Claim C7.  \<open>normalizeText\<close> is idempotent, and it does not see letter case or the
  shape of white-space runs: two strings whose words agree up to case (they differ only in
  case and in leading, trailing or internal white-space runs) have the same normal form.
  In particular \<open>"Intro  Lesson"\<close> and \<open>"intro lesson"\<close> normalise to the same string.
\<close>

theorem normalizeText_idempotent_insensitive:
  "normalizeText (normalizeText s) = normalizeText s
   \<and> (sameUpToCaseAndWhitespace s t \<longrightarrow> normalizeText s = normalizeText t)
   \<and> normalizeText ''Intro  Lesson'' = normalizeText ''intro lesson''"
proof -
  have "sameUpToCaseAndWhitespace ''Intro  Lesson'' ''intro lesson''"
    by code_simp
  then have "normalizeText ''Intro  Lesson'' = normalizeText ''intro lesson''"
    by (rule normalizeText_same)
  then show ?thesis using normalizeText_idem normalizeText_same by blast
qed

theorem normalizeText_idempotent_insensitive_witness:
  "sameUpToCaseAndWhitespace ''  Getting   STARTED '' ''getting started''
   \<and> normalizeText ''  Getting   STARTED '' = normalizeText ''getting started''
   \<and> normalizeText ''  Getting   STARTED '' = ''getting started''
   \<and> normalizeText (normalizeText ''  Getting   STARTED '') = ''getting started''"
proof -
  have h: "sameUpToCaseAndWhitespace ''  Getting   STARTED '' ''getting started''"
    by code_simp
  have v: "normalizeText ''getting started'' = ''getting started''"
    by code_simp
  from normalizeText_idempotent_insensitive[of "''  Getting   STARTED ''" "''getting started''"] h v
  show ?thesis by simp
qed

section \<open>Content-type detection: results\<close>

lemma detectLessonType_no_icon:
  "findElement (Arr SELECTORS_lessonIcon) lessonElement = None
   \<Longrightarrow> detectLessonType lessonElement = Inr ''unknown''"
  by (simp add: detectLessonType_def)

lemma detectLessonType_Inl:
  "detectLessonType lessonElement = Inl e \<Longrightarrow>
   e = classNameTypeError
   \<and> (\<exists>iconElement. findElement (Arr SELECTORS_lessonIcon) lessonElement = Some iconElement
          \<and> className iconElement = None)"
  unfolding detectLessonType_def Let_def
  by (simp split: option.splits if_splits)

lemma detectLessonType_Inr:
  "(\<forall>iconElement. findElement (Arr SELECTORS_lessonIcon) lessonElement = Some iconElement
       \<longrightarrow> className iconElement \<noteq> None)
   \<Longrightarrow> \<exists>t. detectLessonType lessonElement = Inr t"
  using detectLessonType_Inl[of lessonElement]
  by (cases "detectLessonType lessonElement") auto

text \<open>
  Claim C3.  The claim asks for the attribute scan of the lesson node's own markup both
  when no icon is found and when the icon matches no keyword family.  The scan is only
  reached in the second case.  A card without icon whose markup carries
  \<open>data-type="video"\<close> is classified \<open>unknown\<close>, while the same markup with an
  uninformative icon is classified \<open>video\<close>.
\<close>

theorem detectLessonType_no_icon_skips_fallback:
  \<open>includes_str (toLowerCase (outerHTML fx_lesson_no_icon)) ''data-type="video"''
   \<and> detectLessonType fx_lesson_no_icon = Inr ''unknown''
   \<and> detectLessonType fx_lesson_plain_icon = Inr ''video''\<close>
  by code_simp

section \<open>Waiting for the editor panel: results\<close>

lemma pollTime_mono: "i \<le> j \<Longrightarrow> pollTime delay i \<le> pollTime delay j"
  by (induction j) (auto simp: le_Suc_eq)

lemma pollTime_lower: "500 * i \<le> pollTime delay i"
  by (induction i) auto

lemma waitForLessonLoaded_loop_iff:
  "elapsed + delay i = pollTime delay i \<Longrightarrow>
   waitForLessonLoaded_loop e timeoutMs delay document i elapsed
     \<longleftrightarrow> (\<exists>j\<ge>i. pollTime delay j < timeoutMs \<and> titleMatches e (document j))"
proof (induction e timeoutMs delay document i elapsed rule: waitForLessonLoaded_loop.induct)
  case (1 e timeoutMs delay document i elapsed)
  note inv = "1.prems"
  show ?case
  proof (cases "elapsed + delay i < timeoutMs")
    case False
    have "\<not> (\<exists>j\<ge>i. pollTime delay j < timeoutMs \<and> titleMatches e (document j))"
    proof
      assume "\<exists>j\<ge>i. pollTime delay j < timeoutMs \<and> titleMatches e (document j)"
      then obtain j where "i \<le> j" "pollTime delay j < timeoutMs" by blast
      with pollTime_mono[of i j delay] have "pollTime delay i < timeoutMs" by simp
      with False inv show False by simp
    qed
    with False show ?thesis by (subst waitForLessonLoaded_loop.simps) simp
  next
    case True
    show ?thesis
    proof (cases "titleMatches e (document i)")
      case m: True
      have "\<exists>j\<ge>i. pollTime delay j < timeoutMs \<and> titleMatches e (document j)"
        using True m inv by (intro exI[of _ i]) simp
      with True m show ?thesis by (subst waitForLessonLoaded_loop.simps) simp
    next
      case m: False
      have next_inv: "elapsed + delay i + 500 + delay (Suc i) = pollTime delay (Suc i)"
        using inv by simp
      have "(\<exists>j\<ge>i. pollTime delay j < timeoutMs \<and> titleMatches e (document j))
          \<longleftrightarrow> (\<exists>j\<ge>Suc i. pollTime delay j < timeoutMs \<and> titleMatches e (document j))"
        using m by (metis Suc_leD Suc_leI le_neq_implies_less)
      with True m "1.IH"[OF True m next_inv] show ?thesis
        by (subst waitForLessonLoaded_loop.simps) simp
    qed
  qed
qed

lemma waitForLessonLoaded_iff:
  "waitForLessonLoaded expectedTitle timeoutMs delay document
     \<longleftrightarrow> (\<exists>i. pollTime delay i < timeoutMs
            \<and> titleMatches (normalize_loaded expectedTitle) (document i))"
  unfolding waitForLessonLoaded_def
  by (subst waitForLessonLoaded_loop_iff) simp_all

lemma normalize_loaded_tokens: "normalize_loaded s = joinWithSpace (tokens s)"
  by (simp add: normalize_loaded_def or_else_def collapse_trim)

lemma normalize_loaded_eq_iff: "normalize_loaded a = normalize_loaded b \<longleftrightarrow> tokens a = tokens b"
proof
  assume "normalize_loaded a = normalize_loaded b"
  then have "tokens (joinWithSpace (tokens a)) = tokens (joinWithSpace (tokens b))"
    by (simp add: normalize_loaded_tokens)
  moreover have "tokens (joinWithSpace (tokens s)) = tokens s" for s
    by (rule tokens_join) (use tokens_wellformed[of _ s] in blast)
  ultimately show "tokens a = tokens b" by simp
next
  assume "tokens a = tokens b"
  then show "normalize_loaded a = normalize_loaded b" by (simp add: normalize_loaded_tokens)
qed

text \<open>
  Claim C8, as the code has it.  \<open>waitForLessonLoaded\<close> succeeds exactly when, at some
  poll whose guard is evaluated before the timeout has elapsed, a title element is found
  whose text, trimmed and with its white-space runs collapsed, is equal to the lesson
  title normalised the same way.  Two strings are equal under this normalisation exactly
  when they have the same words, letter for letter: the comparison is an equality
  (containment is not enough) and it is case-sensitive, unlike the one of the locate step.
  How many polls fit before the timeout depends on how long the iterations take: the
  \<open>i\<close>-th poll is never earlier than \<open>500 * i\<close> ms, so with the 12000 ms used by the
  loop there are at most 24 polls.
\<close>

theorem waitForLessonLoaded_exact_match:
  "(waitForLessonLoaded expectedTitle timeoutMs delay document
      \<longleftrightarrow> (\<exists>i titleEl. pollTime delay i < timeoutMs
            \<and> titleEl_loop editorTitleSelectors (document i) = Some titleEl
            \<and> normalize_loaded (textContent titleEl) = normalize_loaded expectedTitle))
   \<and> (normalize_loaded a = normalize_loaded b \<longleftrightarrow> tokens a = tokens b)
   \<and> 500 * i \<le> pollTime delay i
   \<and> (pollTime delay i < 12000 \<longrightarrow> i < 24)"
proof -
  have m: "titleMatches e d \<longleftrightarrow>
      (\<exists>titleEl. titleEl_loop editorTitleSelectors d = Some titleEl \<and> normalize_loaded (textContent titleEl) = e)"
    for e d by (auto simp: titleMatches_def split: option.splits)
  have g: "waitForLessonLoaded expectedTitle timeoutMs delay document
      \<longleftrightarrow> (\<exists>i titleEl. pollTime delay i < timeoutMs
            \<and> titleEl_loop editorTitleSelectors (document i) = Some titleEl
            \<and> normalize_loaded (textContent titleEl) = normalize_loaded expectedTitle)"
    unfolding waitForLessonLoaded_iff m by auto
  have b: "pollTime delay i < 12000 \<longrightarrow> i < 24"
    using pollTime_lower[of i delay] by arith
  from g b normalize_loaded_eq_iff[of a b] pollTime_lower[of i delay] show ?thesis by blast
qed

theorem waitForLessonLoaded_exact_match_witness:
  "waitForLessonLoaded ''Setup'' 12000 (pollDelay (fx_lessonEnv 5 1)) (pollDocument (fx_lessonEnv 5 1))
   \<and> pollTime (pollDelay (fx_lessonEnv 5 1)) 1 = 540
   \<and> \<not> waitForLessonLoaded ''intro'' 12000 fx_no_delay fx_polls_lowercase"
proof -
  let ?el = "leaf ''H1'' '''' ''Setup'' ''Setup''"
  let ?dl = "pollDelay (fx_lessonEnv 5 1)"
  let ?doc = "pollDocument (fx_lessonEnv 5 1)"
  have t: "pollTime ?dl 1 = 540" by (simp add: fx_lessonEnv_def)
  have e: "titleEl_loop editorTitleSelectors (?doc 1) = Some ?el"
    by (simp add: fx_lessonEnv_def fx_document_def editorTitleSelectors_def fx_titles_def)
  have n: "normalize_loaded (textContent ?el) = normalize_loaded ''Setup''"
    by (simp add: leaf_def)
  have "\<exists>i titleEl. pollTime ?dl i < 12000
          \<and> titleEl_loop editorTitleSelectors (?doc i) = Some titleEl
          \<and> normalize_loaded (textContent titleEl) = normalize_loaded ''Setup''"
    using e n t by (intro exI[of _ "1::nat"] exI[of _ ?el]) simp
  with waitForLessonLoaded_exact_match[of "''Setup''" 12000 ?dl ?doc]
  have pos: "waitForLessonLoaded ''Setup'' 12000 ?dl ?doc" by blast
  let ?shown = "leaf ''H1'' '''' ''intro lesson'' ''intro lesson''"
  have s: "titleEl_loop editorTitleSelectors (fx_polls_lowercase i) = Some ?shown" for i
    by (simp add: fx_polls_lowercase_def fx_document_def editorTitleSelectors_def)
  have "tokens ''intro lesson'' \<noteq> tokens ''intro''" by code_simp
  with waitForLessonLoaded_exact_match[of "''intro''" 12000 fx_no_delay fx_polls_lowercase
      "''intro lesson''" "''intro''"]
  have d: "normalize_loaded (textContent ?shown) \<noteq> normalize_loaded ''intro''"
    by (simp add: leaf_def)
  have "\<not> (\<exists>i titleEl. pollTime fx_no_delay i < 12000
          \<and> titleEl_loop editorTitleSelectors (fx_polls_lowercase i) = Some titleEl
          \<and> normalize_loaded (textContent titleEl) = normalize_loaded ''intro'')"
    using s d by auto
  with waitForLessonLoaded_exact_match[of "''intro''" 12000 fx_no_delay fx_polls_lowercase]
  have neg: "\<not> waitForLessonLoaded ''intro'' 12000 fx_no_delay fx_polls_lowercase" by blast
  from pos t neg show ?thesis by (intro conjI)
qed

text \<open>
  Claim C8, as stated, fails.  The editor shows \<open>intro lesson\<close> at every poll and the
  lesson is titled \<open>Intro Lesson\<close>: the two agree under the case-folding normalisation
  of the locate step, yet the wait times out.
\<close>

theorem waitForLessonLoaded_case_folded_counterexample:
  "titleMatchesFolded ''Intro Lesson'' (fx_polls_lowercase 0)
   \<and> \<not> waitForLessonLoaded ''Intro Lesson'' 12000 fx_no_delay fx_polls_lowercase"
proof -
  have a: "titleMatchesFolded ''Intro Lesson'' (fx_polls_lowercase 0)"
    by code_simp
  have "\<not> titleMatches (normalize_loaded ''Intro Lesson'') (fx_document ''intro lesson'' ''Body'')"
    by code_simp
  then have "\<not> titleMatches (normalize_loaded ''Intro Lesson'') (fx_polls_lowercase j)" for j
    by (simp add: fx_polls_lowercase_def)
  then have "\<not> waitForLessonLoaded ''Intro Lesson'' 12000 fx_no_delay fx_polls_lowercase"
    by (simp add: waitForLessonLoaded_iff)
  with a show ?thesis by blast
qed

section \<open>The interaction loop: auxiliary facts\<close>

lemma lessonBody_cases:
  "(\<exists>msg. lessonBody env totalN l st = Inl msg)
   \<or> (\<exists>l'. lessonBody env totalN l st = Inr (l', st))
   \<or> (\<exists>l'. lessonBody env totalN l st =
          Inr (l', st\<lparr> completed := completed st + 1,
                       messages := messages st @ [TcsProgress (completed st + 1) totalN (title l)] \<rparr>))"
  unfolding lessonBody_def Let_def
  by (simp split: option.split sum.split prod.split)

lemma lessonBody_lesson_indep:
  "map_sum id fst (lessonBody env totalN l st) = map_sum id fst (lessonBody env totalN' l st')"
  unfolding lessonBody_def Let_def
  by (simp split: option.split sum.split prod.split)

lemma processLesson_fst: "fst (processLesson env totalN l st) = lessonOutcome env l"
proof -
  have "fst (processLesson env totalN l st) = fst (processLesson env totalN' l st')" for totalN' st'
    using lessonBody_lesson_indep[of env totalN l "st\<lparr>processedLessons := processedLessons st + 1\<rparr>"
        totalN' "st'\<lparr>processedLessons := processedLessons st' + 1\<rparr>"]
    unfolding processLesson_def Let_def
    by (auto split: sum.splits)
  then show ?thesis unfolding lessonOutcome_def by blast
qed

lemma processLesson_state:
  assumes "processLesson env totalN l st = (l', st')"
  shows "processedLessons st' = processedLessons st + 1 \<and> cancelledVar st' = cancelledVar st
     \<and> (completed st' = completed st \<and> messages st' = messages st
        \<or> completed st' = completed st + 1
          \<and> messages st' = messages st @ [TcsProgress (completed st + 1) totalN (title l)])"
  using assms lessonBody_cases[of env totalN l "st\<lparr>processedLessons := processedLessons st + 1\<rparr>"]
  unfolding processLesson_def Let_def
  by (auto split: sum.splits)

lemma processLesson_logOk:
  "processLesson env totalN l st = (l', st') \<Longrightarrow> logOk st \<Longrightarrow> logOk st'"
  using processLesson_state[of env totalN l st l' st'] by (auto simp: logOk_def)

lemma lessonLoop_logOk:
  "lessonLoop env totalN ls st = (ls', st') \<Longrightarrow> logOk st \<Longrightarrow> logOk st'"
proof (induction ls arbitrary: st ls' st')
  case Nil
  then show ?case by simp
next
  case (Cons l ls)
  show ?case
  proof (cases "cancelFlag (env (processedLessons st))")
    case True
    with Cons.prems show ?thesis by (auto simp: logOk_def)
  next
    case False
    obtain l1 st1 where p: "processLesson (env (processedLessons st)) totalN l st = (l1, st1)"
      by (cases "processLesson (env (processedLessons st)) totalN l st")
    obtain ls2 st2 where r: "lessonLoop env totalN ls st1 = (ls2, st2)"
      by (cases "lessonLoop env totalN ls st1")
    from Cons.prems(1) False p r have "st' = st2" by simp
    moreover have "logOk st1" using processLesson_logOk[OF p Cons.prems(2)] .
    ultimately show ?thesis using Cons.IH[OF r] by simp
  qed
qed

lemma lessonLoop_length_eq:
  "lessonLoop env totalN ls st = (ls', st') \<Longrightarrow> length ls' = length ls"
proof (induction ls arbitrary: st ls' st')
  case Nil
  then show ?case by simp
next
  case (Cons l ls)
  show ?case
  proof (cases "cancelFlag (env (processedLessons st))")
    case True
    with Cons.prems show ?thesis by auto
  next
    case False
    obtain l1 st1 where p: "processLesson (env (processedLessons st)) totalN l st = (l1, st1)"
      by (cases "processLesson (env (processedLessons st)) totalN l st")
    obtain ls2 st2 where r: "lessonLoop env totalN ls st1 = (ls2, st2)"
      by (cases "lessonLoop env totalN ls st1")
    from Cons.prems False p r have "ls' = l1 # ls2" by simp
    with Cons.IH[OF r] show ?thesis by simp
  qed
qed

lemma lessonLoop_length: "length (fst (lessonLoop env totalN ls st)) = length ls"
  using lessonLoop_length_eq[of env totalN ls st] by (cases "lessonLoop env totalN ls st") simp

lemma lessonLoop_no_cancel:
  "\<forall>j<length ls. \<not> cancelFlag (env (processedLessons st + j)) \<Longrightarrow>
   \<exists>st'. lessonLoop env totalN ls st = (outcomesFrom env (processedLessons st) ls, st')
      \<and> processedLessons st' = processedLessons st + length ls
      \<and> cancelledVar st' = cancelledVar st"
proof (induction ls arbitrary: st)
  case Nil
  then show ?case by (simp add: outcomesFrom_def)
next
  case (Cons l ls)
  from Cons.prems have nf: "\<not> cancelFlag (env (processedLessons st))" by force
  obtain l1 st1 where p: "processLesson (env (processedLessons st)) totalN l st = (l1, st1)"
    by (cases "processLesson (env (processedLessons st)) totalN l st")
  from processLesson_state[OF p] have s1: "processedLessons st1 = Suc (processedLessons st)"
    "cancelledVar st1 = cancelledVar st" by simp_all
  from processLesson_fst[of "env (processedLessons st)" totalN l st] p
  have l1: "l1 = lessonOutcome (env (processedLessons st)) l" by simp
  have "\<forall>j<length ls. \<not> cancelFlag (env (processedLessons st1 + j))"
  proof (intro allI impI)
    fix j assume "j < length ls"
    then have "Suc j < length (l # ls)" by simp
    with Cons.prems have "\<not> cancelFlag (env (processedLessons st + Suc j))" by blast
    then show "\<not> cancelFlag (env (processedLessons st1 + j))" by (simp add: s1)
  qed
  from Cons.IH[OF this] obtain st2 where
    r: "lessonLoop env totalN ls st1 = (outcomesFrom env (processedLessons st1) ls, st2)"
    and s2: "processedLessons st2 = processedLessons st1 + length ls" "cancelledVar st2 = cancelledVar st1"
    by blast
  have "lessonLoop env totalN (l # ls) st = (outcomesFrom env (processedLessons st) (l # ls), st2)"
    using nf p r l1 s1 by (simp add: outcomesFrom_def)
  with s1 s2 show ?case by simp
qed

lemma lessonLoop_cancel_at:
  "k < length ls \<Longrightarrow> \<forall>j<k. \<not> cancelFlag (env (processedLessons st + j)) \<Longrightarrow>
   cancelFlag (env (processedLessons st + k)) \<Longrightarrow>
   \<exists>st'. lessonLoop env totalN ls st
          = (outcomesFrom env (processedLessons st) (take k ls) @ drop k ls, st')
      \<and> cancelledVar st'
      \<and> (\<exists>ms. messages st' = ms @ [TcsCancelled (completed st') totalN])"
proof (induction ls arbitrary: st k)
  case Nil
  then show ?case by simp
next
  case (Cons l ls)
  show ?case
  proof (cases k)
    case 0
    with Cons.prems show ?thesis by (simp add: outcomesFrom_def)
  next
    case (Suc k')
    from Cons.prems(2) Suc have nf: "\<not> cancelFlag (env (processedLessons st))" by force
    obtain l1 st1 where p: "processLesson (env (processedLessons st)) totalN l st = (l1, st1)"
      by (cases "processLesson (env (processedLessons st)) totalN l st")
    from processLesson_state[OF p] have s1: "processedLessons st1 = Suc (processedLessons st)"
      by simp
    from processLesson_fst[of "env (processedLessons st)" totalN l st] p
    have l1: "l1 = lessonOutcome (env (processedLessons st)) l" by simp
    have a: "k' < length ls" using Cons.prems(1) Suc by simp
    have b: "\<forall>j<k'. \<not> cancelFlag (env (processedLessons st1 + j))"
    proof (intro allI impI)
      fix j assume "j < k'"
      then have "Suc j < k" using Suc by simp
      with Cons.prems(2) have "\<not> cancelFlag (env (processedLessons st + Suc j))" by blast
      then show "\<not> cancelFlag (env (processedLessons st1 + j))" by (simp add: s1)
    qed
    have c: "cancelFlag (env (processedLessons st1 + k'))"
      using Cons.prems(3) Suc s1 by simp
    from Cons.IH[OF a b c] obtain st2 where
      r: "lessonLoop env totalN ls st1
            = (outcomesFrom env (processedLessons st1) (take k' ls) @ drop k' ls, st2)"
      and c2: "cancelledVar st2" "\<exists>ms. messages st2 = ms @ [TcsCancelled (completed st2) totalN]"
      by blast
    have "lessonLoop env totalN (l # ls) st
            = (outcomesFrom env (processedLessons st) (take k (l # ls)) @ drop k (l # ls), st2)"
      using nf p r l1 s1 Suc by (simp add: outcomesFrom_def)
    with c2 show ?thesis by blast
  qed
qed

lemma lessonLoop_append:
  assumes "\<not> cancelledVar st"
  shows "lessonLoop env totalN (xs @ ys) st =
     (case lessonLoop env totalN xs st of
        (xs', st') \<Rightarrow>
          if cancelledVar st' then (xs' @ ys, st')
          else (case lessonLoop env totalN ys st' of (ys', st'') \<Rightarrow> (xs' @ ys', st'')))"
  using assms
proof (induction xs arbitrary: st)
  case Nil
  then show ?case by (simp split: prod.splits)
next
  case (Cons l xs)
  show ?case
  proof (cases "cancelFlag (env (processedLessons st))")
    case True
    then show ?thesis by simp
  next
    case False
    obtain l1 st1 where p: "processLesson (env (processedLessons st)) totalN l st = (l1, st1)"
      by (cases "processLesson (env (processedLessons st)) totalN l st")
    from processLesson_state[OF p] Cons.prems have "\<not> cancelledVar st1" by simp
    note IH = Cons.IH[OF this]
    obtain xs2 st2 where r: "lessonLoop env totalN xs st1 = (xs2, st2)"
      by (cases "lessonLoop env totalN xs st1")
    obtain ys3 st3 where t: "lessonLoop env totalN ys st2 = (ys3, st3)"
      by (cases "lessonLoop env totalN ys st2")
    have whole: "lessonLoop env totalN (xs @ ys) st1
        = (if cancelledVar st2 then (xs2 @ ys, st2) else (xs2 @ ys3, st3))"
      using IH r t by simp
    have lhs: "lessonLoop env totalN ((l # xs) @ ys) st
        = (if cancelledVar st2 then (l1 # xs2 @ ys, st2) else (l1 # xs2 @ ys3, st3))"
      using False p whole by simp
    have rhs: "lessonLoop env totalN (l # xs) st = (l1 # xs2, st2)"
      using False p r by simp
    show ?thesis unfolding lhs rhs using t by simp
  qed
qed

lemma chapterLoop_flat:
  "\<not> cancelledVar st \<Longrightarrow> chapterLoop env totalN chs st = (chs', st') \<Longrightarrow>
   lessonLoop env totalN (flatLessons chs) st = (flatLessons chs', st')
   \<and> map chapterTitle chs' = map chapterTitle chs
   \<and> map chapterIndexC chs' = map chapterIndexC chs
   \<and> map (\<lambda>c. length (lessons c)) chs' = map (\<lambda>c. length (lessons c)) chs"
proof (induction chs arbitrary: st chs' st')
  case Nil
  then show ?case by (simp add: flatLessons_def)
next
  case (Cons c chs)
  obtain ls1 st1 where i: "lessonLoop env totalN (lessons c) st = (ls1, st1)"
    by (cases "lessonLoop env totalN (lessons c) st")
  obtain chs2 st2 where o: "chapterLoop env totalN chs st1 = (chs2, st2)"
    by (cases "chapterLoop env totalN chs st1")
  from Cons.prems i o have res: "chs' = c\<lparr>lessons := ls1\<rparr> # chs2" "st' = st2" by simp_all
  have len: "length ls1 = length (lessons c)"
    using lessonLoop_length[of env totalN "lessons c" st] i by simp
  have fl: "flatLessons (c # chs) = lessons c @ flatLessons chs" by (simp add: flatLessons_def)
  show ?case
  proof (cases "cancelledVar st1")
    case True
    with o have "chs2 = chs" "st2 = st1" by (cases chs; simp)+
    with res i True len show ?thesis
      unfolding fl lessonLoop_append[OF Cons.prems(1)] by (simp add: flatLessons_def)
  next
    case False
    from Cons.IH[OF False o] i res len False show ?thesis
      unfolding fl lessonLoop_append[OF Cons.prems(1)] by (simp add: flatLessons_def)
  qed
qed


lemma countLessons_flat: "countLessons chs = length (flatLessons chs)"
  by (induction chs) (auto simp: countLessons_def flatLessons_def)


lemma startState_logOk: "logOk (startState n)"
  by (simp add: logOk_def startState_def)

lemma outcomesFrom_length: "length (outcomesFrom env p ls) = length ls"
  by (simp add: outcomesFrom_def)


lemma fx_chapters_found:
  "findElements (Arr SELECTORS_chapterContainer) (planDocument (fx_page k)) \<noteq> []"
  by (simp add: findElements_def SELECTORS_chapterContainer_def fx_page_def fx_document_def)

lemma fx_failures_chapters_found:
  "findElements (Arr SELECTORS_chapterContainer) (planDocument fx_page_failures) \<noteq> []"
  by (simp add: findElements_def SELECTORS_chapterContainer_def fx_page_failures_def
      fx_page_def fx_document_def)

lemma buildLessons_untouched:
  "buildLessons ci li els = Inr ls \<Longrightarrow> \<forall>l \<in> set ls. untouched l"
proof (induction els arbitrary: li ls)
  case Nil
  then show ?case by simp
next
  case (Cons el els)
  show ?case
  proof (cases "detectLessonType el")
    case (Inl e)
    with Cons.prems show ?thesis by simp
  next
    case (Inr t)
    show ?thesis
    proof (cases "buildLessons ci (li + 1) els")
      case (Inl e)
      with Inr Cons.prems show ?thesis by simp
    next
      case r: (Inr rest)
      with Inr Cons.prems have "set ls = insert (hd ls) (set rest)" "untouched (hd ls)"
        by (auto simp: untouched_def)
      with Cons.IH[OF r] show ?thesis by auto
    qed
  qed
qed

lemma buildChapters_untouched:
  "buildChapters ci els = Inr plan \<Longrightarrow> \<forall>l \<in> set (flatLessons plan). untouched l"
proof (induction els arbitrary: ci plan)
  case Nil
  then show ?case by (simp add: flatLessons_def)
next
  case (Cons el els)
  show ?case
  proof (cases "buildLessons ci 0 (findElements (Arr SELECTORS_lessonCard) el)")
    case (Inl e)
    with Cons.prems show ?thesis by simp
  next
    case a: (Inr ls)
    show ?thesis
    proof (cases "buildChapters (ci + 1) els")
      case (Inl e)
      with a Cons.prems show ?thesis by simp
    next
      case b: (Inr cs)
      with a Cons.prems have "flatLessons plan = ls @ flatLessons cs"
        by (auto simp: flatLessons_def)
      with buildLessons_untouched[OF a] Cons.IH[OF b] show ?thesis by auto
    qed
  qed
qed

lemma buildChapters_length: "buildChapters ci els = Inr plan \<Longrightarrow> length plan = length els"
proof (induction els arbitrary: ci plan)
  case Nil
  then show ?case by simp
next
  case (Cons el els)
  show ?case
  proof (cases "buildLessons ci 0 (findElements (Arr SELECTORS_lessonCard) el)")
    case (Inl e)
    with Cons.prems show ?thesis by simp
  next
    case a: (Inr ls)
    show ?thesis
    proof (cases "buildChapters (ci + 1) els")
      case (Inl e)
      with a Cons.prems show ?thesis by simp
    next
      case b: (Inr cs)
      with a Cons.prems have "length plan = Suc (length cs)" by auto
      with Cons.IH[OF b] show ?thesis by simp
    qed
  qed
qed




lemma run_with_chapters:
  assumes "findElements (Arr SELECTORS_chapterContainer) (planDocument page) \<noteq> []"
    and "planOf page = Inr plan"
  shows "\<exists>chs st.
     lessonLoop (lessonEnv page) (length (flatLessons plan)) (flatLessons plan)
        (startState (length (flatLessons plan))) = (flatLessons chs, st)
     \<and> map (\<lambda>c. length (lessons c)) chs = map (\<lambda>c. length (lessons c)) plan
     \<and> map chapterTitle chs = map chapterTitle plan
     \<and> clickThroughAndScrapeCourse page =
         (if \<not> cancelledVar st
          then messages st @ [TcsDone (completed st) (length (flatLessons plan))]
          else messages st,
          Inr \<lparr> cancelled = cancelledVar st,
                courseTitle = or_else (documentTitle page) ''Unknown Course'',
                curriculumUrl = locationHref page,
                extractedAt = isoNow page,
                totalChapters = length plan,
                totalLessons = length (flatLessons plan),
                chapters = chs \<rparr>)"
proof -
  let ?n = "length (flatLessons plan)"
  obtain chs st where
    c: "chapterLoop (lessonEnv page) ?n plan (startState ?n) = (chs, st)"
    by (cases "chapterLoop (lessonEnv page) ?n plan (startState ?n)")
  have "\<not> cancelledVar (startState ?n)" by (simp add: startState_def)
  from chapterLoop_flat[OF this c]
  have f: "lessonLoop (lessonEnv page) ?n (flatLessons plan) (startState ?n) = (flatLessons chs, st)"
    and m: "map (\<lambda>c. length (lessons c)) chs = map (\<lambda>c. length (lessons c)) plan"
    and t: "map chapterTitle chs = map chapterTitle plan"
    by simp_all
  from assms(2) have b: "buildChapters 0 (findElements (Arr SELECTORS_chapterContainer) (planDocument page))
      = Inr plan" by (simp add: planOf_def)
  have "clickThroughAndScrapeCourse page =
         (if \<not> cancelledVar st then messages st @ [TcsDone (completed st) ?n] else messages st,
          Inr \<lparr> cancelled = cancelledVar st,
                courseTitle = or_else (documentTitle page) ''Unknown Course'',
                curriculumUrl = locationHref page,
                extractedAt = isoNow page,
                totalChapters = length plan,
                totalLessons = ?n,
                chapters = chs \<rparr>)"
    using assms(1) b c
    unfolding clickThroughAndScrapeCourse_def Let_def countLessons_flat startState_def[symmetric]
    by simp
  with f m t show ?thesis by blast
qed

lemma planOf_chapters_found:
  "planOf page = Inr plan \<Longrightarrow> plan \<noteq> [] \<Longrightarrow>
   findElements (Arr SELECTORS_chapterContainer) (planDocument page) \<noteq> []"
  by (auto simp: planOf_def)






lemma fx_plan_built:
  "case planOf (fx_page 2) of Inl e \<Rightarrow> False | Inr plan \<Rightarrow> length (flatLessons plan) = 5"
  by code_simp

lemma fx_failures_plan_built:
  "case planOf fx_page_failures of Inl e \<Rightarrow> False
   | Inr plan \<Rightarrow> length (flatLessons plan) = 5 \<and> length plan = 2"
  by code_simp








lemma fx_cancel_run:
  "clickThroughAndScrapeCourse (fx_page 2) =
    ([TcsInit 5, TcsProgress 1 5 ''Intro'', TcsProgress 2 5 ''Setup'', TcsCancelled 2 5],
     Inr \<lparr>cancelled = True, courseTitle = ''Course'',
         curriculumUrl = ''https://school.thinkific.com/manage/courses/1'',
         extractedAt = ''2025-11-30T12:00:00.000Z'', totalChapters = 2,
         totalLessons = 5,
         chapters =
           [\<lparr>chapterTitle = ''One'', chapterIndexC = 0,
               lessons =
                 [\<lparr>chapterIndex = 0, lessonIndex = 0, title = ''Intro'',
                     ltype = ''unknown'', content = Some ''Text of Intro'',
                     lessonTextContent = Some ''Text of Intro'',
                     plainTextContent = Some ''Text of Intro'',
                     error = None\<rparr>,
                  \<lparr>chapterIndex = 0, lessonIndex = 1, title = ''Setup'',
                     ltype = ''unknown'', content = Some ''Text of Setup'',
                     lessonTextContent = Some ''Text of Setup'',
                     plainTextContent = Some ''Text of Setup'',
                     error = None\<rparr>,
                  \<lparr>chapterIndex = 0, lessonIndex = 2, title = ''Basics'',
                     ltype = ''unknown'', content = None,
                     lessonTextContent = None, plainTextContent = None,
                     error = None\<rparr>]\<rparr>,
            \<lparr>chapterTitle = ''Two'', chapterIndexC = 1,
               lessons =
                 [\<lparr>chapterIndex = 1, lessonIndex = 0, title = ''Advanced'',
                     ltype = ''unknown'', content = None,
                     lessonTextContent = None, plainTextContent = None,
                     error = None\<rparr>,
                  \<lparr>chapterIndex = 1, lessonIndex = 1, title = ''Summary'',
                     ltype = ''unknown'', content = None,
                     lessonTextContent = None, plainTextContent = None,
                     error = None\<rparr>]\<rparr>]\<rparr>)"
  by code_simp

lemma fx_failures_run:
  "clickThroughAndScrapeCourse fx_page_failures =
    ([TcsInit 5, TcsProgress 1 5 ''Intro'', TcsProgress 2 5 ''Basics'',
      TcsProgress 3 5 ''Summary'', TcsDone 3 5],
     Inr \<lparr>cancelled = False, courseTitle = ''Course'',
         curriculumUrl = ''https://school.thinkific.com/manage/courses/1'',
         extractedAt = ''2025-11-30T12:00:00.000Z'', totalChapters = 2,
         totalLessons = 5,
         chapters =
           [\<lparr>chapterTitle = ''One'', chapterIndexC = 0,
               lessons =
                 [\<lparr>chapterIndex = 0, lessonIndex = 0, title = ''Intro'',
                     ltype = ''unknown'', content = Some ''Text of Intro'',
                     lessonTextContent = Some ''Text of Intro'',
                     plainTextContent = Some ''Text of Intro'',
                     error = None\<rparr>,
                  \<lparr>chapterIndex = 0, lessonIndex = 1, title = ''Setup'',
                     ltype = ''unknown'', content = None,
                     lessonTextContent = None, plainTextContent = None,
                     error = Some ''Lesson did not load in editor panel (timeout)''\<rparr>,
                  \<lparr>chapterIndex = 0, lessonIndex = 2, title = ''Basics'',
                     ltype = ''unknown'', content = Some ''Text of Basics'',
                     lessonTextContent = Some ''Text of Basics'',
                     plainTextContent = Some ''Text of Basics'',
                     error = None\<rparr>]\<rparr>,
            \<lparr>chapterTitle = ''Two'', chapterIndexC = 1,
               lessons =
                 [\<lparr>chapterIndex = 1, lessonIndex = 0, title = ''Advanced'',
                     ltype = ''unknown'', content = None,
                     lessonTextContent = None, plainTextContent = None,
                     error = Some ''Could not find lesson card in DOM''\<rparr>,
                  \<lparr>chapterIndex = 1, lessonIndex = 1, title = ''Summary'',
                     ltype = ''unknown'', content = None,
                     lessonTextContent = None, plainTextContent = None,
                     error = Some ''Could not extract text from editor''\<rparr>]\<rparr>]\<rparr>)"
  by code_simp

lemma fx_svg_run:
  "clickThroughAndScrapeCourse fx_page_svg =
     ([], Inl ''Course scraping failed: iconElement.className.toLowerCase is not a function'')"
  by code_simp

section \<open>The run: results\<close>



text \<open>
  Claim C1.  Let the plan be built and let lesson \<open>k\<close> (counted from 0 in processing
  order) be the first lesson at whose iteration the cancellation flag is found set.  Then
  the run returns a result document with \<open>cancelled = true\<close>; the lessons before \<open>k\<close>
  are what their own iterations made of them; the lessons from \<open>k\<close> on are those of the
  plan, with null content fields and no error; the chapter structure and the totals are
  those of the plan; the last message is the cancellation message, carrying the number of
  progress messages sent, and no completion message is sent.  The witness is the scenario
  of the specification: five lessons, cancellation found before the third.
\<close>

theorem cancellation_at_lesson_boundary:
  assumes plan_built: "planOf page = Inr plan"
    and k_is_a_lesson: "k < length (flatLessons plan)"
    and flag_clear_before: "\<forall>j<k. \<not> cancelFlag (lessonEnv page j)"
    and flag_set_at: "cancelFlag (lessonEnv page k)"
  shows "\<exists>msgs doc. clickThroughAndScrapeCourse page = (msgs, Inr doc)
     \<and> cancelled doc
     \<and> take k (flatLessons (chapters doc))
         = outcomesFrom (lessonEnv page) 0 (take k (flatLessons plan))
     \<and> drop k (flatLessons (chapters doc)) = drop k (flatLessons plan)
     \<and> (\<forall>l \<in> set (drop k (flatLessons (chapters doc))). untouched l)
     \<and> map (\<lambda>c. length (lessons c)) (chapters doc) = map (\<lambda>c. length (lessons c)) plan
     \<and> totalLessons doc = length (flatLessons plan)
     \<and> last msgs = TcsCancelled (length (filter isProgress msgs)) (totalLessons doc)
     \<and> (\<forall>m \<in> set msgs. \<not> isDone m)"
proof -
  let ?n = "length (flatLessons plan)"
  let ?flat = "flatLessons plan"
  let ?env = "lessonEnv page"
  from k_is_a_lesson have "plan \<noteq> []" by (auto simp: flatLessons_def)
  from planOf_chapters_found[OF plan_built this]
  have chapters_found: "findElements (Arr SELECTORS_chapterContainer) (planDocument page) \<noteq> []" .
  from run_with_chapters[OF chapters_found plan_built] obtain chs st where
    l: "lessonLoop ?env ?n ?flat (startState ?n) = (flatLessons chs, st)"
    and m: "map (\<lambda>c. length (lessons c)) chs = map (\<lambda>c. length (lessons c)) plan"
    and r: "clickThroughAndScrapeCourse page =
         (if \<not> cancelledVar st then messages st @ [TcsDone (completed st) ?n] else messages st,
          Inr \<lparr> cancelled = cancelledVar st,
                courseTitle = or_else (documentTitle page) ''Unknown Course'',
                curriculumUrl = locationHref page,
                extractedAt = isoNow page,
                totalChapters = length plan,
                totalLessons = ?n,
                chapters = chs \<rparr>)"
    by blast
  have p0: "processedLessons (startState ?n) = 0" by (simp add: startState_def)
  from lessonLoop_cancel_at[of k ?flat ?env "startState ?n" ?n] k_is_a_lesson flag_clear_before flag_set_at
  obtain st' where
    l': "lessonLoop ?env ?n ?flat (startState ?n) = (outcomesFrom ?env 0 (take k ?flat) @ drop k ?flat, st')"
    and c: "cancelledVar st'"
    and ms: "\<exists>ms. messages st' = ms @ [TcsCancelled (completed st') ?n]"
    unfolding p0 by auto
  from l l' have fl: "flatLessons chs = outcomesFrom ?env 0 (take k ?flat) @ drop k ?flat"
    and st: "st' = st" by simp_all
  have lk: "length (outcomesFrom ?env 0 (take k ?flat)) = k"
    using k_is_a_lesson by (simp add: outcomesFrom_length)
  have tk: "take k (flatLessons chs) = outcomesFrom ?env 0 (take k ?flat)"
    unfolding fl using lk by simp
  have dk: "drop k (flatLessons chs) = drop k ?flat"
    unfolding fl using lk by simp
  have "\<forall>l \<in> set ?flat. untouched l"
    using buildChapters_untouched[of 0 _ plan] plan_built by (simp add: planOf_def)
  then have un: "\<forall>l \<in> set (drop k (flatLessons chs)). untouched l"
    unfolding dk by (meson in_set_dropD)
  have ok: "logOk st" using lessonLoop_logOk[OF l startState_logOk] .
  from ms st obtain ms0 where ms0: "messages st = ms0 @ [TcsCancelled (completed st) ?n]" by blast
  have cnt: "completed st = length (filter isProgress (messages st))"
    using ok by (simp add: logOk_def)
  have lastm: "last (messages st) = TcsCancelled (length (filter isProgress (messages st))) ?n"
    using ms0 cnt by (metis last_snoc)
  have nd: "\<forall>m \<in> set (messages st). \<not> isDone m" using ok by (simp add: logOk_def)
  from r c st have run: "clickThroughAndScrapeCourse page =
         (messages st,
          Inr \<lparr> cancelled = True,
                courseTitle = or_else (documentTitle page) ''Unknown Course'',
                curriculumUrl = locationHref page,
                extractedAt = isoNow page,
                totalChapters = length plan,
                totalLessons = ?n,
                chapters = chs \<rparr>)" by simp
  show ?thesis
    unfolding run using tk dk un m lastm nd by simp
qed

theorem cancellation_at_lesson_boundary_witness:
  "(\<exists>plan msgs doc. planOf (fx_page 2) = Inr plan
      \<and> clickThroughAndScrapeCourse (fx_page 2) = (msgs, Inr doc)
      \<and> msgs = [TcsInit 5, TcsProgress 1 5 ''Intro'', TcsProgress 2 5 ''Setup'', TcsCancelled 2 5]
      \<and> cancelled doc
      \<and> map content (flatLessons (chapters doc))
           = [Some ''Text of Intro'', Some ''Text of Setup'', None, None, None]
      \<and> map error (flatLessons (chapters doc)) = [None, None, None, None, None]
      \<and> take 2 (flatLessons (chapters doc))
           = outcomesFrom (fx_lessonEnv 2) 0 (take 2 (flatLessons plan))
      \<and> (\<forall>l \<in> set (drop 2 (flatLessons (chapters doc))). untouched l))"
proof -
  from fx_plan_built obtain plan where
    p: "planOf (fx_page 2) = Inr plan" and n: "length (flatLessons plan) = 5"
    by (auto split: sum.splits)
  have k: "2 < length (flatLessons plan)" by (simp add: n)
  have before: "\<forall>j<2. \<not> cancelFlag (lessonEnv (fx_page 2) j)"
    by (simp add: fx_page_def fx_lessonEnv_def)
  have at: "cancelFlag (lessonEnv (fx_page 2) 2)"
    by (simp add: fx_page_def fx_lessonEnv_def)
  have env: "lessonEnv (fx_page 2) = fx_lessonEnv 2" by (simp add: fx_page_def)
  from cancellation_at_lesson_boundary[OF p k before at]
  obtain msgs doc where
    r: "clickThroughAndScrapeCourse (fx_page 2) = (msgs, Inr doc)"
    and t: "take 2 (flatLessons (chapters doc))
           = outcomesFrom (lessonEnv (fx_page 2)) 0 (take 2 (flatLessons plan))"
    and u: "\<forall>l \<in> set (drop 2 (flatLessons (chapters doc))). untouched l"
    and c: "cancelled doc"
    by blast
  from r fx_cancel_run have
    m: "msgs = [TcsInit 5, TcsProgress 1 5 ''Intro'', TcsProgress 2 5 ''Setup'', TcsCancelled 2 5]"
    and d: "map content (flatLessons (chapters doc))
           = [Some ''Text of Intro'', Some ''Text of Setup'', None, None, None]"
      "map error (flatLessons (chapters doc)) = [None, None, None, None, None]"
    by (auto simp: flatLessons_def)
  from t have t': "take 2 (flatLessons (chapters doc))
           = outcomesFrom (fx_lessonEnv 2) 0 (take 2 (flatLessons plan))"
    by (simp only: env)
  show ?thesis
  proof (intro exI conjI)
    show "planOf (fx_page 2) = Inr plan" by (rule p)
    show "clickThroughAndScrapeCourse (fx_page 2) = (msgs, Inr doc)" by (rule r)
    show "msgs = [TcsInit 5, TcsProgress 1 5 ''Intro'', TcsProgress 2 5 ''Setup'', TcsCancelled 2 5]"
      by (rule m)
    show "cancelled doc" by (rule c)
    show "map content (flatLessons (chapters doc))
           = [Some ''Text of Intro'', Some ''Text of Setup'', None, None, None]" by (rule d(1))
    show "map error (flatLessons (chapters doc)) = [None, None, None, None, None]" by (rule d(2))
    show "take 2 (flatLessons (chapters doc))
           = outcomesFrom (fx_lessonEnv 2) 0 (take 2 (flatLessons plan))" by (rule t')
    show "\<forall>l \<in> set (drop 2 (flatLessons (chapters doc))). untouched l" by (rule u)
  qed
qed

text \<open>
  Claim C5.  In a run whose plan is built and that is not cancelled every lesson of the
  plan is processed, each with the page as it is at its own turn, whatever happened to the
  lessons before it, and the run returns a result document that is not marked cancelled.
  A located lesson whose load wait times out gets the timeout error and null content
  fields.  More generally an iteration that changes the error field of a lesson leaves its
  content fields null.
\<close>

theorem lesson_failure_never_aborts:
  "(findElements (Arr SELECTORS_chapterContainer) (planDocument page) \<noteq> []
      \<and> planOf page = Inr plan
      \<and> (\<forall>i < length (flatLessons plan). \<not> cancelFlag (lessonEnv page i))
    \<longrightarrow> (\<exists>msgs doc. clickThroughAndScrapeCourse page = (msgs, Inr doc)
          \<and> \<not> cancelled doc
          \<and> flatLessons (chapters doc) = outcomesFrom (lessonEnv page) 0 (flatLessons plan)
          \<and> map (\<lambda>c. length (lessons c)) (chapters doc)
              = map (\<lambda>c. length (lessons c)) plan))
   \<and> (\<forall>cardEl.
        findTargetCard (normalizeText (title l))
            (findElements (Arr SELECTORS_lessonCard) (locateDocument env)) = Some cardEl
        \<and> clickTargetResolves cardEl
        \<and> interactionError env = None
        \<and> \<not> waitForLessonLoaded (title l) 12000 (pollDelay env) (pollDocument env)
      \<longrightarrow> error (lessonOutcome env l) = Some ''Lesson did not load in editor panel (timeout)''
          \<and> content (lessonOutcome env l) = None
          \<and> lessonTextContent (lessonOutcome env l) = None
          \<and> plainTextContent (lessonOutcome env l) = None)
   \<and> (error (lessonOutcome env l) \<noteq> error l \<longrightarrow>
          content (lessonOutcome env l) = None
          \<and> lessonTextContent (lessonOutcome env l) = None
          \<and> plainTextContent (lessonOutcome env l) = None)"
proof (intro conjI impI allI)
  assume a: "findElements (Arr SELECTORS_chapterContainer) (planDocument page) \<noteq> []
      \<and> planOf page = Inr plan
      \<and> (\<forall>i < length (flatLessons plan). \<not> cancelFlag (lessonEnv page i))"
  let ?n = "length (flatLessons plan)"
  let ?flat = "flatLessons plan"
  let ?env = "lessonEnv page"
  from a run_with_chapters[of page plan] obtain chs st where
    l: "lessonLoop ?env ?n ?flat (startState ?n) = (flatLessons chs, st)"
    and m: "map (\<lambda>c. length (lessons c)) chs = map (\<lambda>c. length (lessons c)) plan"
    and r: "clickThroughAndScrapeCourse page =
         (if \<not> cancelledVar st then messages st @ [TcsDone (completed st) ?n] else messages st,
          Inr \<lparr> cancelled = cancelledVar st,
                courseTitle = or_else (documentTitle page) ''Unknown Course'',
                curriculumUrl = locationHref page,
                extractedAt = isoNow page,
                totalChapters = length plan,
                totalLessons = ?n,
                chapters = chs \<rparr>)"
    by blast
  have p0: "processedLessons (startState ?n) = 0" "\<not> cancelledVar (startState ?n)"
    by (simp_all add: startState_def)
  from lessonLoop_no_cancel[of ?flat ?env "startState ?n" ?n] a
  obtain st' where
    l': "lessonLoop ?env ?n ?flat (startState ?n) = (outcomesFrom ?env 0 ?flat, st')"
    and c: "cancelledVar st' = cancelledVar (startState ?n)"
    unfolding p0(1) by auto
  from l l' have fl: "flatLessons chs = outcomesFrom ?env 0 ?flat" and st: "st' = st" by simp_all
  from c st p0 have nc: "\<not> cancelledVar st" by simp
  show "\<exists>msgs doc. clickThroughAndScrapeCourse page = (msgs, Inr doc)
          \<and> \<not> cancelled doc
          \<and> flatLessons (chapters doc) = outcomesFrom (lessonEnv page) 0 (flatLessons plan)
          \<and> map (\<lambda>c. length (lessons c)) (chapters doc)
              = map (\<lambda>c. length (lessons c)) plan"
    unfolding r using nc fl m by simp
next
  fix cardEl
  assume a: "findTargetCard (normalizeText (title l))
            (findElements (Arr SELECTORS_lessonCard) (locateDocument env)) = Some cardEl
        \<and> clickTargetResolves cardEl
        \<and> interactionError env = None
        \<and> \<not> waitForLessonLoaded (title l) 12000 (pollDelay env) (pollDocument env)"
  then have "lessonOutcome env l = failLesson l ''Lesson did not load in editor panel (timeout)''"
    unfolding lessonOutcome_def processLesson_def lessonBody_def Let_def clickTargetResolves_def
    by (auto split: option.splits sum.splits)
  then show "error (lessonOutcome env l) = Some ''Lesson did not load in editor panel (timeout)''"
    "content (lessonOutcome env l) = None"
    "lessonTextContent (lessonOutcome env l) = None"
    "plainTextContent (lessonOutcome env l) = None"
    by (simp_all add: failLesson_def)
next
  assume e: "error (lessonOutcome env l) \<noteq> error l"
  have "(\<exists>msg. lessonOutcome env l = failLesson l msg)
      \<or> error (lessonOutcome env l) = error l"
    unfolding lessonOutcome_def processLesson_def lessonBody_def Let_def
    by (auto split: option.splits sum.splits prod.splits)
  with e obtain msg where "lessonOutcome env l = failLesson l msg" by blast
  then show "content (lessonOutcome env l) = None"
    "lessonTextContent (lessonOutcome env l) = None"
    "plainTextContent (lessonOutcome env l) = None"
    by (simp_all add: failLesson_def)
qed

theorem lesson_failure_never_aborts_witness:
  "(\<exists>plan msgs doc. planOf fx_page_failures = Inr plan
      \<and> clickThroughAndScrapeCourse fx_page_failures = (msgs, Inr doc)
      \<and> \<not> cancelled doc
      \<and> flatLessons (chapters doc) = outcomesFrom fx_failingEnv 0 (flatLessons plan)
      \<and> map error (flatLessons (chapters doc))
           = [None, Some ''Lesson did not load in editor panel (timeout)'', None,
              Some ''Could not find lesson card in DOM'',
              Some ''Could not extract text from editor'']
      \<and> map content (flatLessons (chapters doc))
           = [Some ''Text of Intro'', None, Some ''Text of Basics'', None, None])
   \<and> error (lessonOutcome (fx_failingEnv 1) fx_setup_lesson)
        = Some ''Lesson did not load in editor panel (timeout)''
   \<and> content (lessonOutcome (fx_failingEnv 1) fx_setup_lesson) = None"
proof -
  from fx_failures_plan_built obtain plan where
    p: "planOf fx_page_failures = Inr plan" and n: "length (flatLessons plan) = 5"
    by (auto split: sum.splits)
  have env: "lessonEnv fx_page_failures = fx_failingEnv"
    by (simp add: fx_page_failures_def)
  have flags: "\<forall>i < length (flatLessons plan). \<not> cancelFlag (lessonEnv fx_page_failures i)"
    unfolding env n by (simp add: fx_failingEnv_def fx_lessonEnv_def)
  have "case findTargetCard (normalizeText (title fx_setup_lesson))
            (findElements (Arr SELECTORS_lessonCard) (locateDocument (fx_failingEnv 1))) of
          None \<Rightarrow> False | Some c \<Rightarrow> clickTargetResolves c"
    by code_simp
  then obtain cardEl where
    loc: "findTargetCard (normalizeText (title fx_setup_lesson))
            (findElements (Arr SELECTORS_lessonCard) (locateDocument (fx_failingEnv 1))) = Some cardEl"
    and clk: "clickTargetResolves cardEl"
    by (auto split: option.splits)
  have noexn: "interactionError (fx_failingEnv 1) = None"
    by (simp add: fx_failingEnv_def fx_lessonEnv_def)
  have timeout: "\<not> waitForLessonLoaded (title fx_setup_lesson) 12000
                     (pollDelay (fx_failingEnv 1)) (pollDocument (fx_failingEnv 1))"
    by code_simp
  note inst = lesson_failure_never_aborts[of fx_page_failures plan fx_setup_lesson "fx_failingEnv 1"]
  from inst fx_failures_chapters_found p flags obtain msgs doc where
    r: "clickThroughAndScrapeCourse fx_page_failures = (msgs, Inr doc)"
    and nc: "\<not> cancelled doc"
    and o: "flatLessons (chapters doc)
           = outcomesFrom (lessonEnv fx_page_failures) 0 (flatLessons plan)"
    by blast
  from inst loc clk noexn timeout have
    e: "error (lessonOutcome (fx_failingEnv 1) fx_setup_lesson)
        = Some ''Lesson did not load in editor panel (timeout)''"
    and c: "content (lessonOutcome (fx_failingEnv 1) fx_setup_lesson) = None"
    by blast+
  from r fx_failures_run have
    d: "map error (flatLessons (chapters doc))
           = [None, Some ''Lesson did not load in editor panel (timeout)'', None,
              Some ''Could not find lesson card in DOM'',
              Some ''Could not extract text from editor'']"
      "map content (flatLessons (chapters doc))
           = [Some ''Text of Intro'', None, Some ''Text of Basics'', None, None]"
    by (auto simp: flatLessons_def)
  from o have o': "flatLessons (chapters doc) = outcomesFrom fx_failingEnv 0 (flatLessons plan)"
    by (simp only: env)
  have first: "\<exists>plan msgs doc. planOf fx_page_failures = Inr plan
      \<and> clickThroughAndScrapeCourse fx_page_failures = (msgs, Inr doc)
      \<and> \<not> cancelled doc
      \<and> flatLessons (chapters doc) = outcomesFrom fx_failingEnv 0 (flatLessons plan)
      \<and> map error (flatLessons (chapters doc))
           = [None, Some ''Lesson did not load in editor panel (timeout)'', None,
              Some ''Could not find lesson card in DOM'',
              Some ''Could not extract text from editor'']
      \<and> map content (flatLessons (chapters doc))
           = [Some ''Text of Intro'', None, Some ''Text of Basics'', None, None]"
  proof (intro exI conjI)
    show "planOf fx_page_failures = Inr plan" by (rule p)
    show "clickThroughAndScrapeCourse fx_page_failures = (msgs, Inr doc)" by (rule r)
    show "\<not> cancelled doc" by (rule nc)
    show "flatLessons (chapters doc) = outcomesFrom fx_failingEnv 0 (flatLessons plan)" by (rule o')
    show "map error (flatLessons (chapters doc))
           = [None, Some ''Lesson did not load in editor panel (timeout)'', None,
              Some ''Could not find lesson card in DOM'',
              Some ''Could not extract text from editor'']" by (rule d(1))
    show "map content (flatLessons (chapters doc))
           = [Some ''Text of Intro'', None, Some ''Text of Basics'', None, None]" by (rule d(2))
  qed
  from first e c show ?thesis by (intro conjI)
qed

text \<open>
  Claim C2.  A progress message is sent for a lesson that succeeds and for one whose
  extraction fails, but the iteration of a lesson that cannot be located or whose load
  wait times out is left by \<open>continue\<close> before the message is sent.  In the run below
  lessons \<open>Setup\<close> (timeout) and \<open>Advanced\<close> (not located) have no progress message
  and the final count is 3 of 5, while \<open>Summary\<close> (extraction failure) has one.
\<close>

theorem progress_skipped_on_locate_failure_and_timeout:
  "fst (clickThroughAndScrapeCourse fx_page_failures)
     = [TcsInit 5, TcsProgress 1 5 ''Intro'', TcsProgress 2 5 ''Basics'',
        TcsProgress 3 5 ''Summary'', TcsDone 3 5]
   \<and> (case snd (clickThroughAndScrapeCourse fx_page_failures) of
         Inl e \<Rightarrow> False
       | Inr doc \<Rightarrow>
           map (\<lambda>l. (title l, error l)) (flatLessons (chapters doc))
             = [(''Intro'', None),
                (''Setup'', Some ''Lesson did not load in editor panel (timeout)''),
                (''Basics'', None),
                (''Advanced'', Some ''Could not find lesson card in DOM''),
                (''Summary'', Some ''Could not extract text from editor'')])"
  unfolding fx_failures_run by (simp add: flatLessons_def)


end
